theory Spec2Isabelle
  imports Complex_Main "HOL-Library.Multiset"
begin

section \<open>The document tables of the scanner front end\<close>

text \<open>
  The page component keeps its data in React state cells and talks to the listing relay
  \<^verbatim>\<open>/api/documents?offset=..&limit=..\<close> through \<^verbatim>\<open>fetch\<close>. A handler is modelled as a
  function from the state of the render whose closure it is (plus what the network
  answers) to the state after its last \<^verbatim>\<open>setState\<close>, together with the list of requests
  it sent, in order. JavaScript numbers that only ever hold integers here (offsets,
  limits, page numbers) are \<^typ>\<open>int\<close>.
\<close>

subsection \<open>Data\<close>

text \<open>\<^verbatim>\<open>interface Document\<close> and \<^verbatim>\<open>interface DocumentsResponse\<close>. The field
  \<^verbatim>\<open>documents\<close> is optional at run time (the code reads it as \<^verbatim>\<open>data.documents || []\<close>);
  the response's own \<^verbatim>\<open>offset\<close> and \<^verbatim>\<open>limit\<close> are named \<open>resp_offset\<close> and \<open>resp_limit\<close>.\<close>

record Document =
  document_id :: string
  filename :: string
  upload_timestamp :: string
  content_length :: int
  sensitive_info_count :: int
  email_count :: int
  ssn_count :: int

record DocumentsResponse =
  total :: int
  resp_offset :: int
  resp_limit :: int
  response_documents :: "Document list option"
  api_version :: string

text \<open>One request to the listing relay: the two query parameters of the URL.\<close>

record request =
  offset :: int
  limit :: int

text \<open>What \<^verbatim>\<open>await fetch(..)\<close> followed by \<^verbatim>\<open>response.ok\<close> and \<^verbatim>\<open>await response.json()\<close>
  can give: the fetch rejects, the status is not 2xx (the code throws), the body is not
  JSON (\<^verbatim>\<open>json()\<close> rejects), or a parsed body.\<close>

datatype fetch_result =
    FetchRejected
  | NotOk nat
  | JsonRejected
  | Json DocumentsResponse

text \<open>The relay and the backend behind it are outside the component. Their answer to a
  request may depend on everything asked before (the server's data can change between
  two requests), so the network is a function of the requests sent so far, the last
  element being the one that is answered.\<close>

type_synonym network = "request list \<Rightarrow> fetch_result"

text \<open>\<^verbatim>\<open>data.documents || []\<close>\<close>

definition documents_or_empty :: "DocumentsResponse \<Rightarrow> Document list" where
  "documents_or_empty data = (case response_documents data of None \<Rightarrow> [] | Some ds \<Rightarrow> ds)"

text \<open>The state cells shared by both table variants (\<^verbatim>\<open>documents\<close>, \<^verbatim>\<open>loading\<close>, \<^verbatim>\<open>error\<close>,
  \<^verbatim>\<open>currentPage\<close>, \<^verbatim>\<open>pageSize\<close>), and the cells the chunk-caching variant adds.\<close>

record table_state =
  documents :: "DocumentsResponse option"
  loading :: bool
  error :: "string option"
  currentPage :: int
  pageSize :: int

record windowing_state = table_state +
  localDocuments :: "Document list"
  currentChunk :: int
  hasMoreDocuments :: bool
  loadingMore :: bool

text \<open>The \<^verbatim>\<open>useState\<close> initial values of the two variants.\<close>

definition initial_table :: table_state where
  "initial_table =
     \<lparr>documents = None, loading = True, error = None, currentPage = 1, pageSize = 10\<rparr>"

definition initial_windowing :: windowing_state where
  "initial_windowing =
     \<lparr>documents = None, loading = True, error = None, currentPage = 1, pageSize = 5,
      localDocuments = [], currentChunk = 0, hasMoreDocuments = True, loadingMore = False\<rparr>"

subsection \<open>The chunk-caching table: \<^verbatim>\<open>fetchDocuments\<close>\<close>

text \<open>
  \<^verbatim>\<open>
  const fetchDocuments = async (chunkOffset = 0) => {
    try {
      setLoading(true); setError(null);
      const response = await fetch(`/api/documents?offset=${chunkOffset}&limit=100`);
      if (!response.ok) throw new Error(..);
      const data = await response.json();
      setLocalDocuments(data.documents || []);
      setDocuments(data);
      setCurrentChunk(chunkOffset / 100);
      setHasMoreDocuments((data.documents || []).length === 100);
    } catch (err) { setError('Failed to fetch documents. Please try again.'); }
    finally { setLoading(false); setLoadingMore(false); }
  };
  \<close>
  Every caller passes a multiple of 100 (0, or \<^verbatim>\<open>(currentChunk + 1) * 100\<close>), so
  \<^verbatim>\<open>chunkOffset / 100\<close> is the integer quotient.
\<close>

definition fetchDocuments ::
  "network \<Rightarrow> windowing_state \<Rightarrow> int \<Rightarrow> windowing_state \<times> request list" where
  "fetchDocuments net st chunkOffset =
     (let st1 = st\<lparr>loading := True, error := None\<rparr>;
          sent = [\<lparr>offset = chunkOffset, limit = 100\<rparr>]
      in case net sent of
           Json data \<Rightarrow>
             (st1\<lparr>localDocuments := documents_or_empty data,
                  documents := Some data,
                  currentChunk := chunkOffset div 100,
                  hasMoreDocuments := (length (documents_or_empty data) = 100),
                  loading := False, loadingMore := False\<rparr>, sent)
         | _ \<Rightarrow>
             (st1\<lparr>error := Some ''Failed to fetch documents. Please try again.'',
                  loading := False, loadingMore := False\<rparr>, sent))"

subsection \<open>The chunk-caching table: \<^verbatim>\<open>handleLastPage\<close>\<close>

text \<open>
  \<^verbatim>\<open>
  let offset = 1000;
  let lastPageDocuments: Document[] = [];
  while (offset >= 0) {
    const response = await fetch(`/api/documents?offset=${offset}&limit=${pageSize}`);
    if (!response.ok) throw new Error(..);
    const data = await response.json();
    const documents = data.documents || [];
    if (documents.length === 0) { break; }
    else if (documents.length < pageSize) { lastPageDocuments = documents; break; }
    else { offset += 100; }
  }
  \<close>
  Nothing bounds the loop: against a backend that keeps answering full pages it never
  ends. The model counts the iterations it may still make (\<open>fuel\<close>) and reports
  \<open>OutOfFuel\<close> with the requests sent so far when the count is used up, so that what
  is proved of the requests holds for every finite stretch of an endless run too.
\<close>

datatype probe_exit =
    OutOfFuel
  | Thrown
  | Exit "Document list" int

fun probe :: "nat \<Rightarrow> network \<Rightarrow> int \<Rightarrow> int \<Rightarrow> request list \<Rightarrow> probe_exit \<times> request list" where
  "probe 0 net pgSize off sent = (OutOfFuel, sent)"
| "probe (Suc fuel) net pgSize off sent =
     (if off \<ge> 0 then
        (let sent' = sent @ [\<lparr>offset = off, limit = pgSize\<rparr>]
         in case net sent' of
              Json data \<Rightarrow>
                (let docs = documents_or_empty data
                 in if length docs = 0 then (Exit [] off, sent')
                    else if int (length docs) < pgSize then (Exit docs off, sent')
                    else probe fuel net pgSize (off + 100) sent')
            | _ \<Rightarrow> (Thrown, sent'))
      else (Exit [] off, sent))"

text \<open>
  \<^verbatim>\<open>
  const handleLastPage = async () => {
    if (loadingMore) return;
    setLoadingMore(true);
    try {
      .. the loop above ..
      if (lastPageDocuments.length === 0) {
        const lastPageOffset = Math.max(0, (currentChunk + 1) * 100 - pageSize);
        const response = await fetch(`/api/documents?offset=${lastPageOffset}&limit=${pageSize}`);
        if (!response.ok) throw new Error(..);
        const data = await response.json();
        lastPageDocuments = data.documents || [];
        offset = lastPageOffset;
      }
      setLocalDocuments(lastPageDocuments);
      setCurrentPage(1);
      setCurrentChunk(Math.floor(offset / 100));
    } catch (err) { setError('Failed to fetch last page. Please try again.'); }
    finally { setLoadingMore(false); }
  };
  \<close>
  The result is \<open>None\<close> for the state exactly when the loop ran out of fuel.
\<close>

definition adopt_last_page :: "windowing_state \<Rightarrow> Document list \<Rightarrow> int \<Rightarrow> windowing_state" where
  "adopt_last_page st lastPageDocuments off =
     st\<lparr>localDocuments := lastPageDocuments, currentPage := 1,
        currentChunk := off div 100, loadingMore := False\<rparr>"

definition last_page_failed :: "windowing_state \<Rightarrow> windowing_state" where
  "last_page_failed st =
     st\<lparr>error := Some ''Failed to fetch last page. Please try again.'', loadingMore := False\<rparr>"

definition handleLastPage ::
  "nat \<Rightarrow> network \<Rightarrow> windowing_state \<Rightarrow> windowing_state option \<times> request list" where
  "handleLastPage fuel net st =
     (if loadingMore st then (Some st, [])
      else
        (case probe fuel net (pageSize st) 1000 [] of
           (OutOfFuel, sent) \<Rightarrow> (None, sent)
         | (Thrown, sent) \<Rightarrow> (Some (last_page_failed st), sent)
         | (Exit lastPageDocuments off, sent) \<Rightarrow>
             (if length lastPageDocuments = 0 then
                (let lastPageOffset = max 0 ((currentChunk st + 1) * 100 - pageSize st);
                     sent' = sent @ [\<lparr>offset = lastPageOffset, limit = pageSize st\<rparr>]
                 in case net sent' of
                      Json data \<Rightarrow>
                        (Some (adopt_last_page st (documents_or_empty data) lastPageOffset), sent')
                    | _ \<Rightarrow> (Some (last_page_failed st), sent'))
              else (Some (adopt_last_page st lastPageDocuments off), sent))))"

text \<open>The requests the loop sends while every answer is a full page: the \<open>i\<close>-th one
  (from 0) asks for offset \<open>1000 + 100 * i\<close> with the page size as its limit. Used to
  state what \<open>handleLastPage\<close> sends.\<close>

definition probe_requests_from :: "int \<Rightarrow> int \<Rightarrow> nat \<Rightarrow> request list" where
  "probe_requests_from off pgSize n =
     map (\<lambda>i. \<lparr>offset = off + 100 * int i, limit = pgSize\<rparr>) [0..<n]"

definition probe_requests :: "int \<Rightarrow> nat \<Rightarrow> request list" where
  "probe_requests pgSize n = probe_requests_from 1000 pgSize n"

text \<open>An answer that parses and carries exactly \<open>pgSize\<close> records.\<close>

definition is_full_page :: "int \<Rightarrow> fetch_result \<Rightarrow> bool" where
  "is_full_page pgSize r =
     (case r of Json data \<Rightarrow> int (length (documents_or_empty data)) = pgSize | _ \<Rightarrow> False)"

subsection \<open>The chunk-caching table: \<^verbatim>\<open>handlePageChange\<close>\<close>

text \<open>
  \<^verbatim>\<open>const totalPages = Math.ceil(totalDocuments / pageSize);\<close> with
  \<^verbatim>\<open>totalDocuments = localDocuments.length\<close>. The quotient of two integers is rounded up;
  with a page size of 0 it is \<^verbatim>\<open>Infinity\<close>, or \<^verbatim>\<open>NaN\<close> when there are no documents.
\<close>

datatype js_number = Finite int | PosInfinity | NaN

definition totalPages :: "windowing_state \<Rightarrow> js_number" where
  "totalPages st =
     (let totalDocuments = int (length (localDocuments st))
      in if pageSize st = 0 then (if totalDocuments = 0 then NaN else PosInfinity)
         else Finite (- ((- totalDocuments) div pageSize st)))"

text \<open>\<^verbatim>\<open>page <= x\<close> and \<^verbatim>\<open>page === x\<close> for an integer \<open>page\<close>.\<close>

definition js_le :: "int \<Rightarrow> js_number \<Rightarrow> bool" where
  "js_le page x = (case x of Finite n \<Rightarrow> page \<le> n | PosInfinity \<Rightarrow> True | NaN \<Rightarrow> False)"

definition js_eq :: "int \<Rightarrow> js_number \<Rightarrow> bool" where
  "js_eq page x = (case x of Finite n \<Rightarrow> page = n | _ \<Rightarrow> False)"

text \<open>
  \<^verbatim>\<open>
  const handlePageChange = (page: number) => {
    if (page >= 1 && page <= totalPages) {
      setCurrentPage(page);
      if (page === totalPages && hasMoreDocuments && !loadingMore) {
        const nextChunkOffset = (currentChunk + 1) * 100;
        setLoadingMore(true);
        fetchDocuments(nextChunkOffset);
        setCurrentPage(1); // Reset to first page of new chunk
      }
    }
  };
  \<close>
  \<^verbatim>\<open>fetchDocuments\<close> is not awaited: its updates after the answer land on the state in
  which the current page is already 1.
\<close>

definition handlePageChange ::
  "network \<Rightarrow> windowing_state \<Rightarrow> int \<Rightarrow> windowing_state \<times> request list" where
  "handlePageChange net st page =
     (if page \<ge> 1 \<and> js_le page (totalPages st) then
        (if js_eq page (totalPages st) \<and> hasMoreDocuments st \<and> \<not> loadingMore st then
           (let nextChunkOffset = (currentChunk st + 1) * 100
            in fetchDocuments net (st\<lparr>currentPage := 1, loadingMore := True\<rparr>) nextChunkOffset)
         else (st\<lparr>currentPage := page\<rparr>, []))
      else (st, []))"

subsection \<open>Changing the page size, and the effects that follow a render\<close>

text \<open>
  Both variants define the same handler:
  \<^verbatim>\<open>
  const handlePageSizeChange = (newPageSize: number) => {
    setPageSize(newPageSize);
    setCurrentPage(1); // Reset to first page when changing page size
  };
  \<close>
\<close>

definition handlePageSizeChange :: "'a table_state_scheme \<Rightarrow> int \<Rightarrow> 'a table_state_scheme" where
  "handlePageSizeChange st newPageSize = st\<lparr>pageSize := newPageSize, currentPage := 1\<rparr>"

text \<open>
  The server-paginated variant fetches one page of \<^verbatim>\<open>pageSize\<close> records:
  \<^verbatim>\<open>
  const fetchDocuments = async () => {
    try {
      setLoading(true); setError(null);
      const offset = (currentPage - 1) * pageSize;
      const response = await fetch(`/api/documents?offset=${offset}&limit=${pageSize}`);
      if (!response.ok) throw new Error(..);
      const data = await response.json();
      setDocuments(data);
    } catch (err) { setError('Failed to fetch documents. Please try again.'); }
    finally { setLoading(false); }
  };
  \<close>
\<close>

definition fetchDocuments_paged :: "network \<Rightarrow> table_state \<Rightarrow> table_state \<times> request list" where
  "fetchDocuments_paged net st =
     (let st1 = st\<lparr>loading := True, error := None\<rparr>;
          sent = [\<lparr>offset = (currentPage st - 1) * pageSize st, limit = pageSize st\<rparr>]
      in case net sent of
           Json data \<Rightarrow> (st1\<lparr>documents := Some data, loading := False\<rparr>, sent)
         | _ \<Rightarrow>
             (st1\<lparr>error := Some ''Failed to fetch documents. Please try again.'',
                  loading := False\<rparr>, sent))"

text \<open>
  React runs an effect after a render in which one of its dependencies differs from the
  render before. The server-paginated variant declares
  \<^verbatim>\<open>useEffect(() => { fetchDocuments(); }, [currentPage, pageSize]);\<close>
  and the chunk-caching variant
  \<^verbatim>\<open>useEffect(() => { fetchDocuments(); }, [currentChunk]);\<close>
  (its \<^verbatim>\<open>fetchDocuments\<close> called with the default \<^verbatim>\<open>chunkOffset = 0\<close>).
  \<open>prev\<close> is the state of the render before, \<open>cur\<close> the state the handler left.
\<close>

definition useEffect_paged ::
  "network \<Rightarrow> table_state \<Rightarrow> table_state \<Rightarrow> table_state \<times> request list" where
  "useEffect_paged net prev cur =
     (if currentPage cur \<noteq> currentPage prev \<or> pageSize cur \<noteq> pageSize prev
      then fetchDocuments_paged net cur else (cur, []))"

definition useEffect_windowing ::
  "network \<Rightarrow> windowing_state \<Rightarrow> windowing_state \<Rightarrow> windowing_state \<times> request list" where
  "useEffect_windowing net prev cur =
     (if currentChunk cur \<noteq> currentChunk prev
      then fetchDocuments net cur 0 else (cur, []))"

text \<open>\<^verbatim>\<open>Array.prototype.slice(start, end)\<close> on integer arguments: a negative index counts
  from the end, and both are clamped to the array.\<close>

definition slice :: "'a list \<Rightarrow> int \<Rightarrow> int \<Rightarrow> 'a list" where
  "slice xs start end =
     (let len = int (length xs);
          k = (if start < 0 then max (len + start) 0 else min start len);
          final = (if end < 0 then max (len + end) 0 else min end len)
      in take (nat (final - k)) (drop (nat k) xs))"

text \<open>\<^verbatim>\<open>localDocuments.slice((currentPage - 1) * pageSize, currentPage * pageSize)\<close>:
  the rows the chunk-caching table shows.\<close>

definition currentPageDocuments :: "windowing_state \<Rightarrow> Document list" where
  "currentPageDocuments st =
     slice (localDocuments st) ((currentPage st - 1) * pageSize st) (currentPage st * pageSize st)"

subsection \<open>Sample backends\<close>

definition example_document :: Document where
  "example_document =
     \<lparr>document_id = ''doc-1'', filename = ''report.pdf'',
      upload_timestamp = ''2025-01-01T00:00:00Z'', content_length = 2048,
      sensitive_info_count = 0, email_count = 0, ssn_count = 0\<rparr>"

definition page_of :: "nat \<Rightarrow> DocumentsResponse" where
  "page_of n =
     \<lparr>total = int n, resp_offset = 0, resp_limit = 0,
      response_documents = Some (replicate n example_document), api_version = ''v1''\<rparr>"

text \<open>A backend that answers the first request with five records and any later one
  with two, and one that answers the first with none and any later one with three.\<close>

definition net_full_then_short :: network where
  "net_full_then_short sent = (if length sent = 1 then Json (page_of 5) else Json (page_of 2))"

definition net_empty_then_three :: network where
  "net_empty_then_three sent = (if length sent = 1 then Json (page_of 0) else Json (page_of 3))"

text \<open>A table that has loaded twelve records and shows them ten per page, page 2.\<close>

definition paged_on_page_2 :: table_state where
  "paged_on_page_2 =
     \<lparr>documents = Some (page_of 2), loading = False, error = None,
      currentPage = 2, pageSize = 10\<rparr>"

definition windowing_with_12 :: windowing_state where
  "windowing_with_12 =
     \<lparr>documents = Some (page_of 12), loading = False, error = None,
      currentPage = 2, pageSize = 5,
      localDocuments = replicate 12 example_document, currentChunk = 0,
      hasMoreDocuments = False, loadingMore = False\<rparr>"

text \<open>A table that holds a full chunk of 100 records, fifty per page, on page 1.\<close>

definition windowing_full_chunk :: windowing_state where
  "windowing_full_chunk =
     \<lparr>documents = Some (page_of 100), loading = False, error = None,
      currentPage = 1, pageSize = 50,
      localDocuments = replicate 100 example_document, currentChunk = 0,
      hasMoreDocuments = True, loadingMore = False\<rparr>"

section \<open>The route handlers\<close>

text \<open>
  The three route handlers (\<^verbatim>\<open>POST /api/proxy\<close>, \<^verbatim>\<open>GET /api/documents\<close>,
  \<^verbatim>\<open>POST /api/pdf\<close>) each wrap their whole body in \<^verbatim>\<open>try { .. } catch (error) { .. }\<close>.
  An awaited promise or a call either gives a value or throws an error with a message.
\<close>

datatype 'a attempt =
    Throws string
  | Returns 'a

text \<open>A parsed JSON value. Numbers are integers here (no handler computes with them),
  and an object lists each of its keys once, as \<^verbatim>\<open>JSON.parse\<close> keeps one value per key.\<close>

datatype json =
    JNull
  | JBool bool
  | JNumber int
  | JString string
  | JArray "json list"
  | JObject "(string \<times> json) list"

text \<open>An uploaded \<^verbatim>\<open>File\<close> (its \<^verbatim>\<open>name\<close> and \<^verbatim>\<open>type\<close>), and the entries of a
  \<^verbatim>\<open>FormData\<close>, which are files or strings; \<^verbatim>\<open>formData.get(k)\<close> is the first entry
  named \<open>k\<close>, or \<^verbatim>\<open>null\<close>.\<close>

record File =
  file_name :: string
  file_type :: string

datatype form_entry =
    FormString string
  | FormFile File

type_synonym FormData = "(string \<times> form_entry) list"

definition formData_get :: "FormData \<Rightarrow> string \<Rightarrow> form_entry option" where
  "formData_get formData k = map_of formData k"

text \<open>What a handler returns: \<^verbatim>\<open>NextResponse.json(body, { status })\<close>, the status being
  200 when none is given.\<close>

record NextResponse =
  status :: nat
  body :: json

definition NextResponse_json :: "json \<Rightarrow> nat \<Rightarrow> NextResponse" where
  "NextResponse_json data code = \<lparr>status = code, body = data\<rparr>"

definition error_object :: "string \<Rightarrow> json" where
  "error_object msg = JObject [(''error'', JString msg)]"

text \<open>A request a relay sends to the backend (\<open>http_method\<close> is the option \<^verbatim>\<open>method\<close> of
  \<^verbatim>\<open>fetch\<close>), and the backend's answer: its status code
  and what \<^verbatim>\<open>await response.json()\<close> gives. \<^verbatim>\<open>fetch\<close> itself may reject.\<close>

record backend_request =
  url :: string
  http_method :: string
  headers :: "(string \<times> string) list"
  form_body :: "FormData option"

record backend_response =
  backend_status :: nat
  response_json :: "json attempt"

type_synonym backend = "backend_request \<Rightarrow> backend_response attempt"

text \<open>\<^verbatim>\<open>new URL(path, base).toString()\<close> belongs to the platform: it is a parameter of the
  relays, and it throws when \<open>base\<close> is not an absolute URL.\<close>

type_synonym URL = "string \<Rightarrow> string \<Rightarrow> string attempt"

text \<open>\<^verbatim>\<open>process.env.BACKEND_URL\<close> is a string or \<^verbatim>\<open>undefined\<close>; \<^verbatim>\<open>!backendUrl\<close> holds for
  \<^verbatim>\<open>undefined\<close> and for the empty string.\<close>

definition not_configured :: "string option \<Rightarrow> bool" where
  "not_configured backendUrl = (case backendUrl of None \<Rightarrow> True | Some u \<Rightarrow> u = [])"

subsection \<open>\<^verbatim>\<open>POST /api/proxy\<close>\<close>

text \<open>
  \<^verbatim>\<open>
  export async function POST(request: NextRequest) {
    try {
      const formData = await request.formData();
      const backendUrl = process.env.BACKEND_URL;
      if (!backendUrl) {
        return NextResponse.json({ error: 'Backend URL is not configured' }, { status: 500 });
      }
      const uploadUrl = new URL('/api/v1/upload', backendUrl).toString();
      const response = await fetch(uploadUrl, { method: 'POST', body: formData });
      const data = await response.json();
      return NextResponse.json(data);
    } catch (error) {
      console.error('Proxy error:', error);
      return NextResponse.json({ error: 'Error processing request' }, { status: 500 });
    }
  }
  \<close>
  \<^verbatim>\<open>request.formData()\<close> rejects when the body is not form data, so it is an
  \<open>attempt\<close> too. The handler's result comes with the requests it sent to the backend.
\<close>

definition POST_proxy ::
  "URL \<Rightarrow> backend \<Rightarrow> string option \<Rightarrow> FormData attempt \<Rightarrow> NextResponse \<times> backend_request list" where
  "POST_proxy new_URL fetch BACKEND_URL request_formData =
     (let caught = NextResponse_json (error_object ''Error processing request'') 500
      in case request_formData of
           Throws e \<Rightarrow> (caught, [])
         | Returns formData \<Rightarrow>
             (if not_configured BACKEND_URL then
                (NextResponse_json (error_object ''Backend URL is not configured'') 500, [])
              else
                (case new_URL ''/api/v1/upload'' (the BACKEND_URL) of
                   Throws e \<Rightarrow> (caught, [])
                 | Returns uploadUrl \<Rightarrow>
                     (let sent = \<lparr>url = uploadUrl, http_method = ''POST'', headers = [],
                                  form_body = Some formData\<rparr>
                      in case fetch sent of
                           Throws e \<Rightarrow> (caught, [sent])
                         | Returns response \<Rightarrow>
                             (case response_json response of
                                Throws e \<Rightarrow> (caught, [sent])
                              | Returns data \<Rightarrow> (NextResponse_json data 200, [sent]))))))"

subsection \<open>\<^verbatim>\<open>GET /api/documents\<close>\<close>

text \<open>
  \<^verbatim>\<open>
  export async function GET(request: NextRequest) {
    try {
      const { searchParams } = new URL(request.url);
      const offset = searchParams.get('offset') || '0';
      const limit = searchParams.get('limit') || '100';
      const backendUrl = process.env.BACKEND_URL;
      if (!backendUrl) {
        return NextResponse.json({ error: 'Backend URL is not configured' }, { status: 500 });
      }
      const documentsUrl = new URL('/api/v1/documents', backendUrl).toString();
      const urlWithParams = `${documentsUrl}?offset=${offset}&limit=${limit}`;
      const response = await fetch(urlWithParams,
        { method: 'GET', headers: { 'Content-Type': 'application/json' } });
      const data = await response.json();
      return NextResponse.json(data);
    } catch (error) {
      console.error('Documents proxy error:', error);
      return NextResponse.json({ error: 'Error fetching documents' }, { status: 500 });
    }
  }
  \<close>
  \<^verbatim>\<open>request.url\<close> is the absolute URL the server received, so \<^verbatim>\<open>new URL(request.url)\<close>
  does not throw; its query parameters are the input, in order.
\<close>

definition searchParams_get_or :: "(string \<times> string) list \<Rightarrow> string \<Rightarrow> string \<Rightarrow> string" where
  "searchParams_get_or searchParams k dflt =
     (case map_of searchParams k of None \<Rightarrow> dflt | Some v \<Rightarrow> if v = [] then dflt else v)"

definition GET_documents ::
  "URL \<Rightarrow> backend \<Rightarrow> string option \<Rightarrow> (string \<times> string) list \<Rightarrow>
     NextResponse \<times> backend_request list" where
  "GET_documents new_URL fetch BACKEND_URL searchParams =
     (let caught = NextResponse_json (error_object ''Error fetching documents'') 500;
          off = searchParams_get_or searchParams ''offset'' ''0'';
          lmt = searchParams_get_or searchParams ''limit'' ''100''
      in if not_configured BACKEND_URL then
           (NextResponse_json (error_object ''Backend URL is not configured'') 500, [])
         else
           (case new_URL ''/api/v1/documents'' (the BACKEND_URL) of
              Throws e \<Rightarrow> (caught, [])
            | Returns documentsUrl \<Rightarrow>
                (let sent = \<lparr>url = documentsUrl @ ''?offset='' @ off @ ''&limit='' @ lmt,
                             http_method = ''GET'',
                             headers = [(''Content-Type'', ''application/json'')],
                             form_body = None\<rparr>
                 in case fetch sent of
                      Throws e \<Rightarrow> (caught, [sent])
                    | Returns response \<Rightarrow>
                        (case response_json response of
                           Throws e \<Rightarrow> (caught, [sent])
                         | Returns data \<Rightarrow> (NextResponse_json data 200, [sent])))))"

subsection \<open>\<^verbatim>\<open>POST /api/pdf\<close>\<close>

text \<open>
  \<^verbatim>\<open>
  export async function POST(request: NextRequest) {
    try {
      const formData = await request.formData();
      const file = formData.get('file') as File;
      if (!file) {
        return NextResponse.json({ error: 'No file uploaded' }, { status: 400 });
      }
      if (!file.type || file.type !== 'application/pdf') {
        return NextResponse.json({ error: 'Only PDF files are allowed' }, { status: 400 });
      }
      const documentId = uuidv4();
      return NextResponse.json({ document_id: documentId, status: 'success' });
    } catch (error) {
      console.error('Error processing PDF:', error);
      return NextResponse.json({ error: 'Error processing file' }, { status: 500 });
    }
  }
  \<close>
  The cast \<^verbatim>\<open>as File\<close> checks nothing: a text entry named \<^verbatim>\<open>file\<close> is a string, falsy when
  empty and without a \<^verbatim>\<open>type\<close> otherwise. The identifier generator is the library's:
  \<open>uuidv4 n\<close> is what its \<open>n\<close>-th call returns, and the handler's result carries the
  number of calls made so far, so that a call shows as an increment.
\<close>

definition POST_pdf ::
  "(nat \<Rightarrow> string) \<Rightarrow> nat \<Rightarrow> FormData attempt \<Rightarrow> NextResponse \<times> nat" where
  "POST_pdf uuidv4 calls request_formData =
     (case request_formData of
        Throws e \<Rightarrow> (NextResponse_json (error_object ''Error processing file'') 500, calls)
      | Returns formData \<Rightarrow>
          (case formData_get formData ''file'' of
             None \<Rightarrow> (NextResponse_json (error_object ''No file uploaded'') 400, calls)
           | Some (FormString s) \<Rightarrow>
               (if s = [] then (NextResponse_json (error_object ''No file uploaded'') 400, calls)
                else (NextResponse_json (error_object ''Only PDF files are allowed'') 400, calls))
           | Some (FormFile file) \<Rightarrow>
               (if file_type file = [] \<or> file_type file \<noteq> ''application/pdf'' then
                  (NextResponse_json (error_object ''Only PDF files are allowed'') 400, calls)
                else
                  (NextResponse_json
                     (JObject [(''document_id'', JString (uuidv4 calls)),
                               (''status'', JString ''success'')]) 200,
                   Suc calls))))"

text \<open>Whether a response body is an object with a \<^verbatim>\<open>document_id\<close> member.\<close>

definition has_document_id :: "json \<Rightarrow> bool" where
  "has_document_id j = (case j of JObject members \<Rightarrow> map_of members ''document_id'' \<noteq> None | _ \<Rightarrow> False)"

subsection \<open>Sample requests and backends\<close>

definition example_pdf :: File where
  "example_pdf = \<lparr>file_name = ''report.pdf'', file_type = ''application/pdf''\<rparr>"

definition example_png :: File where
  "example_png = \<lparr>file_name = ''scan.png'', file_type = ''image/png''\<rparr>"

text \<open>A resolver that knows one base, \<^verbatim>\<open>https://api.example.com\<close>.\<close>

definition example_URL :: URL where
  "example_URL path base =
     (if base = ''https://api.example.com'' then Returns (base @ path)
      else Throws ''Invalid URL'')"

text \<open>A backend that answers every request with status 422 and a JSON error body, one
  whose connection fails, and one that answers with a body that is not JSON.\<close>

definition backend_422 :: backend where
  "backend_422 r =
     Returns \<lparr>backend_status = 422,
              response_json = Returns (JObject [(''status'', JString ''error''),
                                                (''message'', JString ''unreadable pdf'')])\<rparr>"

definition backend_down :: backend where
  "backend_down r = Throws ''connect ECONNREFUSED 10.0.0.7:8000''"

definition backend_html :: backend where
  "backend_html r =
     Returns \<lparr>backend_status = 502, response_json = Throws ''Unexpected token < in JSON''\<rparr>"

definition example_uuidv4 :: "nat \<Rightarrow> string" where
  "example_uuidv4 n = (if n = 0 then ''9b2f6c1e-0000-4000-8000-000000000000''
                       else ''9b2f6c1e-0000-4000-8000-000000000001'')"

text \<open>The forwarded request failed: \<^verbatim>\<open>fetch\<close> rejected, or the answer's body did not
  parse as JSON.\<close>

definition forward_failed :: "backend_response attempt \<Rightarrow> bool" where
  "forward_failed r =
     (case r of
        Throws e \<Rightarrow> True
      | Returns response \<Rightarrow> (case response_json response of Throws e \<Rightarrow> True | Returns data \<Rightarrow> False))"

definition upload_request :: "string \<Rightarrow> FormData \<Rightarrow> backend_request" where
  "upload_request uploadUrl formData =
     \<lparr>url = uploadUrl, http_method = ''POST'', headers = [], form_body = Some formData\<rparr>"

definition documents_request :: "string \<Rightarrow> string \<Rightarrow> string \<Rightarrow> backend_request" where
  "documents_request documentsUrl off lmt =
     \<lparr>url = documentsUrl @ ''?offset='' @ off @ ''&limit='' @ lmt, http_method = ''GET'',
      headers = [(''Content-Type'', ''application/json'')], form_body = None\<rparr>"

section \<open>The upload widget\<close>

text \<open>
  \<^verbatim>\<open>UploadSection\<close> keeps the selected file, the \<^verbatim>\<open>uploading\<close> flag and the last
  response, which is whatever JSON the relay answered, or an error object the widget
  made itself.
\<close>

record upload_state =
  "file" :: "File option"
  uploading :: bool
  response :: "json option"

definition initial_upload :: upload_state where
  "initial_upload = \<lparr>file = None, uploading = False, response = None\<rparr>"

text \<open>
  \<^verbatim>\<open>
  const handleFileChange = (e: React.ChangeEvent<HTMLInputElement>) => {
    const selectedFile = e.target.files?.[0];
    if (selectedFile && selectedFile.type === 'application/pdf') {
      setFile(selectedFile);
      setResponse(null);
    } else {
      setFile(null);
      setResponse({ status: 'error', error: 'Please select a valid PDF file' });
    }
  };
  \<close>
  \<open>selectedFile\<close> is \<open>None\<close> when the picker was closed without a file.
\<close>

definition handleFileChange :: "upload_state \<Rightarrow> File option \<Rightarrow> upload_state" where
  "handleFileChange st selectedFile =
     (case selectedFile of
        Some f \<Rightarrow>
          (if file_type f = ''application/pdf'' then st\<lparr>file := Some f, response := None\<rparr>
           else st\<lparr>file := None,
                   response := Some (JObject [(''status'', JString ''error''),
                                              (''error'', JString ''Please select a valid PDF file'')])\<rparr>)
      | None \<Rightarrow>
          st\<lparr>file := None,
             response := Some (JObject [(''status'', JString ''error''),
                                        (''error'', JString ''Please select a valid PDF file'')])\<rparr>)"

text \<open>Reading a member of a parsed JSON value: \<^verbatim>\<open>undefined\<close> (\<open>None\<close>) when the value
  is not an object or has no such member. \<open>or_zero\<close> is \<^verbatim>\<open>x || 0\<close>, and
  \<open>optional_member\<close> is \<^verbatim>\<open>x?.k\<close>.\<close>

definition member :: "json \<Rightarrow> string \<Rightarrow> json option" where
  "member j k = (case j of JObject members \<Rightarrow> map_of members k | _ \<Rightarrow> None)"

definition optional_member :: "json option \<Rightarrow> string \<Rightarrow> json option" where
  "optional_member x k =
     (case x of None \<Rightarrow> None | Some JNull \<Rightarrow> None | Some j \<Rightarrow> member j k)"

definition or_zero :: "json option \<Rightarrow> json" where
  "or_zero x =
     (case x of
        None \<Rightarrow> JNumber 0
      | Some JNull \<Rightarrow> JNumber 0
      | Some (JBool b) \<Rightarrow> (if b then JBool b else JNumber 0)
      | Some (JNumber n) \<Rightarrow> JNumber n
      | Some (JString s) \<Rightarrow> (if s = [] then JNumber 0 else JString s)
      | Some j \<Rightarrow> j)"

text \<open>\<^verbatim>\<open>interface ProcessedFile\<close>, the entry handed to \<^verbatim>\<open>onFileProcessed\<close>; its fields
  carry the prefix \<open>pf_\<close>.\<close>

record ProcessedFile =
  pf_id :: string
  pf_name :: string
  pf_timestamp :: string
  pf_status :: "json option"
  pf_findings :: json
  pf_documentId :: "json option"

text \<open>The message of the \<^verbatim>\<open>TypeError\<close> that reading \<^verbatim>\<open>data.status\<close> throws when the relay
  answered the JSON value \<^verbatim>\<open>null\<close> (the text is the engine's; V8's is shown).\<close>

definition null_status_message :: string where
  "null_status_message =
     ''Cannot read properties of null (reading '' @ [CHR 0x27] @ ''status'' @ [CHR 0x27] @ '')''"

text \<open>
  \<^verbatim>\<open>
  const handleUpload = async () => {
    if (!file) return;
    setUploading(true);
    setResponse(null);
    try {
      const formData = new FormData();
      formData.append('file', file);
      const response = await fetch('/api/proxy', { method: 'POST', body: formData });
      const data = await response.json();
      setResponse(data);
      const fileInfo: ProcessedFile = {
        id: crypto.randomUUID(), name: file.name, timestamp: new Date().toISOString(),
        status: data.status,
        findings: data.analysis?.statistics?.total_findings || 0,
        documentId: data.document_id
      };
      onFileProcessed(fileInfo);
    } catch (error) {
      setResponse({ status: 'error',
        error: error instanceof Error ? error.message : 'Error uploading file' });
    } finally { setUploading(false); }
  };
  \<close>
  The result is the state after the handler, the requests it sent, and the entries it
  handed to \<^verbatim>\<open>onFileProcessed\<close>. \<open>randomUUID\<close> and \<open>now\<close> are what
  \<^verbatim>\<open>crypto.randomUUID()\<close> and \<^verbatim>\<open>new Date().toISOString()\<close> give in this call.
\<close>

definition upload_failed :: "upload_state \<Rightarrow> string \<Rightarrow> upload_state" where
  "upload_failed st msg =
     st\<lparr>response := Some (JObject [(''status'', JString ''error''), (''error'', JString msg)]),
        uploading := False\<rparr>"

definition handleUpload ::
  "backend \<Rightarrow> string \<Rightarrow> string \<Rightarrow> upload_state \<Rightarrow>
     upload_state \<times> backend_request list \<times> ProcessedFile list" where
  "handleUpload fetch randomUUID now st =
     (case file st of
        None \<Rightarrow> (st, [], [])
      | Some f \<Rightarrow>
          (let sent = \<lparr>url = ''/api/proxy'', http_method = ''POST'', headers = [],
                       form_body = Some [(''file'', FormFile f)]\<rparr>
           in case fetch sent of
                Throws e \<Rightarrow> (upload_failed st e, [sent], [])
              | Returns answer \<Rightarrow>
                  (case response_json answer of
                     Throws e \<Rightarrow> (upload_failed st e, [sent], [])
                   | Returns data \<Rightarrow>
                       (if data = JNull then (upload_failed st null_status_message, [sent], [])
                        else
                          (st\<lparr>response := Some data, uploading := False\<rparr>, [sent],
                           [\<lparr>pf_id = randomUUID, pf_name = file_name f, pf_timestamp = now,
                             pf_status = member data ''status'',
                             pf_findings =
                               or_zero (optional_member
                                 (optional_member (member data ''analysis'') ''statistics'')
                                 ''total_findings''),
                             pf_documentId = member data ''document_id''\<rparr>])))))"

text \<open>What the user does to the widget, and a session of such events from a given state:
  the state reached, with every request sent on the way.\<close>

datatype upload_event =
    FileChange "File option"
  | Upload

fun upload_session ::
  "backend \<Rightarrow> string \<Rightarrow> string \<Rightarrow> upload_state \<Rightarrow> upload_event list \<Rightarrow>
     upload_state \<times> backend_request list" where
  "upload_session fetch randomUUID now st [] = (st, [])"
| "upload_session fetch randomUUID now st (FileChange selectedFile # evs) =
     upload_session fetch randomUUID now (handleFileChange st selectedFile) evs"
| "upload_session fetch randomUUID now st (Upload # evs) =
     (case handleUpload fetch randomUUID now st of
        (st', sent, entries) \<Rightarrow>
          (case upload_session fetch randomUUID now st' evs of
             (st'', sent') \<Rightarrow> (st'', sent @ sent')))"

text \<open>The file a request to the relay carries, and whether every request of a list
  carries a PDF-typed file.\<close>

definition carries_pdf :: "backend_request \<Rightarrow> bool" where
  "carries_pdf r =
     (case form_body r of
        Some [(k, FormFile f)] \<Rightarrow> k = ''file'' \<and> file_type f = ''application/pdf''
      | _ \<Rightarrow> False)"

text \<open>The widget holds no file, or a PDF-typed one.\<close>

definition holds_pdf_or_nothing :: "upload_state \<Rightarrow> bool" where
  "holds_pdf_or_nothing st =
     (case file st of None \<Rightarrow> True | Some f \<Rightarrow> file_type f = ''application/pdf'')"

definition validation_error :: json where
  "validation_error =
     JObject [(''status'', JString ''error''), (''error'', JString ''Please select a valid PDF file'')]"

section \<open>The findings summary\<close>

text \<open>\<^verbatim>\<open>interface Finding\<close>. Only \<^verbatim>\<open>type\<close> is required.\<close>

datatype Severity = LOW | MEDIUM | HIGH | CRITICAL

record Finding =
  type :: string
  "value" :: "string option"
  location :: "int option"
  confidence :: "real option"
  "context" :: "string option"
  matched_text :: "string option"
  category :: "string option"
  severity :: "Severity option"

text \<open>
  The summary line of \<^verbatim>\<open>FindingsList\<close>:
  \<^verbatim>\<open>
  Object.entries(findings.reduce((acc, finding) => {
      acc[finding.type] = (acc[finding.type] || 0) + 1;
      return acc;
    }, {} as Record<string, number>))
    .map(([type, count]) => `${type.toLowerCase()} (${count})`)
    .join(', ')
  \<close>
  The accumulator is an object literal, so it is an ordinary object whose prototype is
  \<^verbatim>\<open>Object.prototype\<close>. It is modelled by its own properties in the order they were
  created; a property holds a number or, as shown below, a string.
\<close>

datatype js_value = Num nat | Str string

type_synonym js_object = "(string \<times> js_value) list"

text \<open>The properties every ordinary object inherits from \<^verbatim>\<open>Object.prototype\<close>: eleven
  functions and the accessor \<^verbatim>\<open>__proto__\<close>.\<close>

definition Object_prototype_functions :: "string list" where
  "Object_prototype_functions =
     [''constructor'', ''__defineGetter__'', ''__defineSetter__'', ''hasOwnProperty'',
      ''__lookupGetter__'', ''__lookupSetter__'', ''isPrototypeOf'', ''propertyIsEnumerable'',
      ''toString'', ''valueOf'', ''toLocaleString'']"

definition Object_prototype_keys :: "string list" where
  "Object_prototype_keys = ''__proto__'' # Object_prototype_functions"

text \<open>\<^verbatim>\<open>acc[k]\<close> read: the own property if there is one, else the inherited one, else
  \<^verbatim>\<open>undefined\<close>. Reading \<^verbatim>\<open>__proto__\<close> runs the getter, which gives \<^verbatim>\<open>Object.prototype\<close>.\<close>

datatype property_read =
    Undefined
  | Own js_value
  | InheritedFunction string
  | InheritedProto

definition js_get :: "js_object \<Rightarrow> string \<Rightarrow> property_read" where
  "js_get obj k =
     (case map_of obj k of
        Some v \<Rightarrow> Own v
      | None \<Rightarrow>
          (if k = ''__proto__'' then InheritedProto
           else if k \<in> set Object_prototype_functions then InheritedFunction k
           else Undefined))"

text \<open>The text a built-in function converts to (the engine's; V8's is shown). The
  property \<^verbatim>\<open>constructor\<close> holds the function \<^verbatim>\<open>Object\<close>; the others are named as their
  key.\<close>

definition native_function_text :: "string \<Rightarrow> string" where
  "native_function_text k =
     ''function '' @ (if k = ''constructor'' then ''Object'' else k) @ ''() { [native code] }''"

text \<open>\<^verbatim>\<open>(x || 0) + 1\<close>: \<^verbatim>\<open>undefined\<close>, 0 and the empty string are falsy and give 1; a
  number gives its successor; any other string, a function and an object are truthy,
  and \<^verbatim>\<open>+\<close> concatenates their text with \<^verbatim>\<open>"1"\<close>.\<close>

definition or_zero_plus_one :: "property_read \<Rightarrow> js_value" where
  "or_zero_plus_one x =
     (case x of
        Undefined \<Rightarrow> Num 1
      | Own (Num n) \<Rightarrow> Num (n + 1)
      | Own (Str s) \<Rightarrow> (if s = [] then Num 1 else Str (s @ ''1''))
      | InheritedFunction k \<Rightarrow> Str (native_function_text k @ ''1'')
      | InheritedProto \<Rightarrow> Str ''[object Object]1'')"

text \<open>\<^verbatim>\<open>acc[k] = v\<close> for a number or string \<open>v\<close>: the setter of \<^verbatim>\<open>__proto__\<close> ignores a
  value that is not an object (and creates no property); any other key gets an own
  property, updated in place or created last.\<close>

definition js_set :: "js_object \<Rightarrow> string \<Rightarrow> js_value \<Rightarrow> js_object" where
  "js_set obj k v =
     (if k = ''__proto__'' then obj
      else if map_of obj k = None then obj @ [(k, v)]
      else map (\<lambda>(k', v'). if k' = k then (k', v) else (k', v')) obj)"

definition count_step :: "js_object \<Rightarrow> Finding \<Rightarrow> js_object" where
  "count_step acc finding =
     js_set acc (type finding) (or_zero_plus_one (js_get acc (type finding)))"

definition count_by_type :: "Finding list \<Rightarrow> js_object" where
  "count_by_type findings = foldl count_step [] findings"

text \<open>\<^verbatim>\<open>Object.entries\<close> lists the own properties whose key is an array index (the
  canonical decimal text of an integer from 0 to \<open>2^32 - 2\<close>) first, in ascending numeric
  order, and then the others in the order they were created.\<close>

definition digit_value :: "char \<Rightarrow> nat option" where
  "digit_value c = map_of (zip ''0123456789'' [0, 1, 2, 3, 4, 5, 6, 7, 8, 9]) c"

definition decimal_value :: "string \<Rightarrow> nat" where
  "decimal_value s = foldl (\<lambda>n c. 10 * n + the (digit_value c)) 0 s"

definition array_index :: "string \<Rightarrow> nat option" where
  "array_index s =
     (if s = [] \<or> \<not> list_all (\<lambda>c. digit_value c \<noteq> None) s then None
      else if hd s = CHR ''0'' \<and> s \<noteq> ''0'' then None
      else if decimal_value s < 4294967295 then Some (decimal_value s) else None)"

definition Object_entries :: "js_object \<Rightarrow> (string \<times> js_value) list" where
  "Object_entries obj =
     sort_key (\<lambda>(k, v). the (array_index k)) (filter (\<lambda>(k, v). array_index k \<noteq> None) obj) @
     filter (\<lambda>(k, v). array_index k = None) obj"

text \<open>\<^verbatim>\<open>String.prototype.toLowerCase\<close> belongs to the platform and folds every cased
  letter of Unicode: it is a parameter of \<open>FindingsList\<close>. On a string of ASCII
  characters it folds exactly the letters A to Z; \<open>ascii_toLowerCase\<close> does that, and
  stands for it in the examples, whose strings are ASCII.\<close>

definition ascii_toLowerCase_char :: "char \<Rightarrow> char" where
  "ascii_toLowerCase_char c =
     (case map_of (zip ''ABCDEFGHIJKLMNOPQRSTUVWXYZ'' ''abcdefghijklmnopqrstuvwxyz'') c of
        Some l \<Rightarrow> l
      | None \<Rightarrow> c)"

definition ascii_toLowerCase :: "string \<Rightarrow> string" where
  "ascii_toLowerCase s = map ascii_toLowerCase_char s"

text \<open>A number or a string inside a template literal.\<close>

fun decimal :: "nat \<Rightarrow> string" where
  "decimal n =
     (if n < 10 then [''0123456789'' ! n] else decimal (n div 10) @ [''0123456789'' ! (n mod 10)])"

declare decimal.simps [simp del]

definition to_text :: "js_value \<Rightarrow> string" where
  "to_text v = (case v of Num n \<Rightarrow> decimal n | Str s \<Rightarrow> s)"

definition join :: "string \<Rightarrow> string list \<Rightarrow> string" where
  "join sep xs = (case xs of [] \<Rightarrow> [] | x # rest \<Rightarrow> foldl (\<lambda>a b. a @ sep @ b) x rest)"

text \<open>What \<^verbatim>\<open>FindingsList\<close> shows below the cards: nothing for an empty list (the
  component returns early), else \<^verbatim>\<open>Total findings: {findings.length}\<close> and one group per
  entry of the accumulator, with its lower-cased label and its count, joined into the
  line of text. \<open>toLowerCase\<close> is the platform's function.\<close>

record findings_summary =
  total_findings :: nat
  groups :: "(string \<times> js_value) list"
  types_line :: string

definition FindingsList ::
  "(string \<Rightarrow> string) \<Rightarrow> Finding list \<Rightarrow> findings_summary option" where
  "FindingsList toLowerCase findings =
     (if length findings = 0 then None
      else
        (let entries = Object_entries (count_by_type findings)
         in Some \<lparr>total_findings = length findings,
                  groups = map (\<lambda>(t, count). (toLowerCase t, count)) entries,
                  types_line =
                    join '', '' (map (\<lambda>(t, count). toLowerCase t @ '' ('' @ to_text count @ '')'')
                                    entries)\<rparr>))"

text \<open>The sum of the counts shown; a count that is not a number adds nothing.\<close>

definition shown_count_sum :: "(string \<times> js_value) list \<Rightarrow> nat" where
  "shown_count_sum gs = sum_list (map (\<lambda>(label, v). case v of Num n \<Rightarrow> n | Str s \<Rightarrow> 0) gs)"

text \<open>A finding of a given type with no optional field.\<close>

definition finding_of_type :: "string \<Rightarrow> Finding" where
  "finding_of_type t =
     \<lparr>type = t, value = None, location = None, confidence = None, context = None,
      matched_text = None, category = None, severity = None\<rparr>"

text \<open>The number an accumulator holds for a key (0 when it holds none), and whether all
  its properties are numbers.\<close>

definition count_of :: "js_object \<Rightarrow> string \<Rightarrow> nat" where
  "count_of obj k = (case map_of obj k of Some (Num n) \<Rightarrow> n | _ \<Rightarrow> 0)"

definition all_numbers :: "js_object \<Rightarrow> bool" where
  "all_numbers obj = list_all (\<lambda>(k, v). case v of Num n \<Rightarrow> True | Str s \<Rightarrow> False) obj"

section \<open>Properties of the document tables\<close>

lemma probe_requests_from_Suc:
  "probe_requests_from off p (Suc n) =
     \<lparr>offset = off, limit = p\<rparr> # probe_requests_from (off + 100) p n"
proof -
  have "[0..<Suc n] = 0 # map Suc [0..<n]"
    by (simp add: upt_conv_Cons map_Suc_upt del: upt_Suc)
  then show ?thesis
    by (simp add: probe_requests_from_def comp_def algebra_simps del: upt_Suc)
qed

lemma probe_requests_from_snoc:
  "probe_requests_from off p (Suc n) =
     probe_requests_from off p n @ [\<lparr>offset = off + 100 * int n, limit = p\<rparr>]"
  by (simp add: probe_requests_from_def)

lemma probe_full_pages:
  assumes "0 < p" and "0 \<le> off"
    and "\<forall>i<k. is_full_page p (net (sent @ probe_requests_from off p (Suc i)))"
  shows "probe (k + n) net p off sent =
           probe n net p (off + 100 * int k) (sent @ probe_requests_from off p k)"
  using assms
proof (induction k arbitrary: off sent)
  case 0
  then show ?case by (simp add: probe_requests_from_def)
next
  case (Suc k)
  let ?r = "\<lparr>offset = off, limit = p\<rparr>"
  from Suc.prems(3) have "is_full_page p (net (sent @ probe_requests_from off p (Suc 0)))"
    by blast
  then have full: "is_full_page p (net (sent @ [?r]))"
    by (simp add: probe_requests_from_def)
  then obtain data where d: "net (sent @ [?r]) = Json data"
    and len: "int (length (documents_or_empty data)) = p"
    by (auto simp: is_full_page_def split: fetch_result.splits)
  have step: "probe (Suc (k + n)) net p off sent = probe (k + n) net p (off + 100) (sent @ [?r])"
    using Suc.prems(1,2) d len by (auto simp: Let_def)
  have rest: "\<forall>i<k. is_full_page p (net ((sent @ [?r]) @ probe_requests_from (off + 100) p (Suc i)))"
  proof (intro allI impI)
    fix i assume "i < k"
    then have "is_full_page p (net (sent @ probe_requests_from off p (Suc (Suc i))))"
      using Suc.prems(3) by simp
    then show "is_full_page p (net ((sent @ [?r]) @ probe_requests_from (off + 100) p (Suc i)))"
      by (simp add: probe_requests_from_Suc [of off p "Suc i"])
  qed
  have "probe (k + n) net p (off + 100) (sent @ [?r]) =
          probe n net p (off + 100 + 100 * int k) ((sent @ [?r]) @ probe_requests_from (off + 100) p k)"
    using Suc.IH [of "off + 100" "sent @ [?r]"] Suc.prems(1,2) rest by simp
  with step show ?case
    by (simp add: probe_requests_from_Suc [of off p k] algebra_simps)
qed

lemma probe_prefix: "\<exists>more. snd (probe fuel net p off sent) = sent @ more \<and> (\<forall>r\<in>set more. limit r = p)"
proof (induction fuel arbitrary: off sent)
  case 0
  then show ?case by simp
next
  case (Suc fuel)
  show ?case
  proof (cases "0 \<le> off")
    case False
    then show ?thesis by simp
  next
    case True
    let ?s = "sent @ [\<lparr>offset = off, limit = p\<rparr>]"
    obtain more where m: "snd (probe fuel net p (off + 100) ?s) = ?s @ more" "\<forall>r\<in>set more. limit r = p"
      using Suc.IH [of "off + 100" ?s] by blast
    show ?thesis
    proof (cases "net ?s")
      case (Json data)
      then show ?thesis using True m
        by (auto simp: Let_def intro: exI [of _ "[\<lparr>offset = off, limit = p\<rparr>]"]
            exI [of _ "\<lparr>offset = off, limit = p\<rparr> # more"])
    qed (use True in \<open>auto simp: Let_def\<close>)
  qed
qed


lemma probe_Suc_prefix:
  assumes "0 \<le> off"
  shows "\<exists>more. snd (probe (Suc fuel) net p off sent) = (sent @ [\<lparr>offset = off, limit = p\<rparr>]) @ more
            \<and> (\<forall>r\<in>set more. limit r = p)"
proof -
  let ?s = "sent @ [\<lparr>offset = off, limit = p\<rparr>]"
  obtain more where m: "snd (probe fuel net p (off + 100) ?s) = ?s @ more" "\<forall>r\<in>set more. limit r = p"
    using probe_prefix [of fuel net p "off + 100" ?s] by blast
  show ?thesis
  proof (cases "net ?s")
    case (Json data)
    then show ?thesis using assms m by (auto simp: Let_def)
  qed (use assms in \<open>auto simp: Let_def\<close>)
qed

lemma handleLastPage_sent:
  assumes "\<not> loadingMore st"
  shows "\<exists>tail. snd (handleLastPage fuel net st) = snd (probe fuel net (pageSize st) 1000 []) @ tail
            \<and> (\<forall>r\<in>set tail. limit r = pageSize st)"
proof (cases "probe fuel net (pageSize st) 1000 []")
  case (Pair ex sent)
  show ?thesis
  proof (cases ex)
    case (Exit docs off)
    show ?thesis
    proof (cases "net (sent @ [\<lparr>offset = max 0 ((currentChunk st + 1) * 100 - pageSize st), limit = pageSize st\<rparr>])")
      case (Json data)
      then show ?thesis using assms Pair Exit by (auto simp: handleLastPage_def Let_def)
    qed (use assms Pair Exit in \<open>auto simp: handleLastPage_def Let_def\<close>)
  qed (use assms Pair in \<open>auto simp: handleLastPage_def\<close>)
qed

lemma handleLastPage_limits:
  "\<forall>r\<in>set (snd (handleLastPage fuel net st)). limit r = pageSize st"
proof (cases "loadingMore st")
  case True
  then show ?thesis by (simp add: handleLastPage_def)
next
  case False
  obtain tail where t: "snd (handleLastPage fuel net st) = snd (probe fuel net (pageSize st) 1000 []) @ tail"
    "\<forall>r\<in>set tail. limit r = pageSize st"
    using handleLastPage_sent [OF False] by blast
  obtain more where m: "snd (probe fuel net (pageSize st) 1000 []) = [] @ more"
    "\<forall>r\<in>set more. limit r = pageSize st"
    using probe_prefix [of fuel net "pageSize st" 1000 "[]"] by blast
  show ?thesis using t m by auto
qed

text \<open>
  Claim C1 as stated fails for an invocation made while \<^verbatim>\<open>loadingMore\<close> is set: the
  handler returns at its first line, and no request is sent.
\<close>

theorem handleLastPage_refused_while_loading:
  "handleLastPage 3 net_full_then_short (windowing_with_12\<lparr>loadingMore := True\<rparr>) =
     (Some (windowing_with_12\<lparr>loadingMore := True\<rparr>), [])"
  by (simp add: handleLastPage_def)

text \<open>
  Claim C1, amended. An invocation of \<open>handleLastPage\<close> made while \<^verbatim>\<open>loadingMore\<close> is
  set changes nothing and sends nothing. Any other invocation, at a positive page size
  (every selectable size is), first asks for offset 1000 with the page size as limit,
  and after each answer of exactly \<open>pageSize\<close> records asks again 100 further on: while
  the first \<open>k\<close> answers are full pages, the first \<open>k + 1\<close> requests are those of
  \<open>probe_requests\<close> (whatever the remaining fuel, so also on a run that never ends).
  When the answer to request \<open>k + 1\<close> has fewer than \<open>pageSize\<close> records, the handler
  stops there: with at least one record it adopts them (the cache becomes these
  records, page 1, chunk \<open>(1000 + 100 * k) div 100\<close>) and sends nothing more; with no
  record it sends exactly one more request, for offset
  \<open>max 0 ((currentChunk + 1) * 100 - pageSize)\<close> and limit \<open>pageSize\<close>, and adopts its
  answer.
\<close>

theorem handleLastPage_probe:
  assumes size: "0 < pageSize st"
    and full: "\<forall>i<k. is_full_page (pageSize st) (net (probe_requests (pageSize st) (Suc i)))"
    and fuel: "k < fuel"
  shows "(loadingMore st \<longrightarrow> handleLastPage fuel net st = (Some st, [])) \<and>
    (\<not> loadingMore st \<longrightarrow>
      take (Suc k) (snd (handleLastPage fuel net st)) = probe_requests (pageSize st) (Suc k) \<and>
      (\<forall>data. net (probe_requests (pageSize st) (Suc k)) = Json data \<and>
          int (length (documents_or_empty data)) < pageSize st \<longrightarrow>
        handleLastPage fuel net st =
          (if documents_or_empty data = [] then
             (let lastPageOffset = max 0 ((currentChunk st + 1) * 100 - pageSize st);
                  sent = probe_requests (pageSize st) (Suc k) @
                           [\<lparr>offset = lastPageOffset, limit = pageSize st\<rparr>]
              in (case net sent of
                    Json fallback \<Rightarrow>
                      Some (adopt_last_page st (documents_or_empty fallback) lastPageOffset)
                  | _ \<Rightarrow> Some (last_page_failed st), sent))
           else (Some (adopt_last_page st (documents_or_empty data) (1000 + 100 * int k)),
                 probe_requests (pageSize st) (Suc k)))))"
proof (rule conjI; rule impI)
  assume "loadingMore st"
  then show "handleLastPage fuel net st = (Some st, [])"
    by (simp add: handleLastPage_def)
next
  assume idle: "\<not> loadingMore st"
  show "take (Suc k) (snd (handleLastPage fuel net st)) = probe_requests (pageSize st) (Suc k) \<and>
      (\<forall>data. net (probe_requests (pageSize st) (Suc k)) = Json data \<and>
          int (length (documents_or_empty data)) < pageSize st \<longrightarrow>
        handleLastPage fuel net st =
          (if documents_or_empty data = [] then
             (let lastPageOffset = max 0 ((currentChunk st + 1) * 100 - pageSize st);
                  sent = probe_requests (pageSize st) (Suc k) @
                           [\<lparr>offset = lastPageOffset, limit = pageSize st\<rparr>]
              in (case net sent of
                    Json fallback \<Rightarrow>
                      Some (adopt_last_page st (documents_or_empty fallback) lastPageOffset)
                  | _ \<Rightarrow> Some (last_page_failed st), sent))
           else (Some (adopt_last_page st (documents_or_empty data) (1000 + 100 * int k)),
                 probe_requests (pageSize st) (Suc k))))"
  proof -
    let ?p = "pageSize st"
    obtain m where m: "fuel = k + Suc m"
      using fuel less_iff_Suc_add by auto
    have run: "probe fuel net ?p 1000 [] =
                 probe (Suc m) net ?p (1000 + 100 * int k) (probe_requests ?p k)"
      using probe_full_pages [of ?p 1000 k net "[]" "Suc m"] size full
      by (simp add: m probe_requests_def)
    have snoc: "probe_requests ?p k @ [\<lparr>offset = 1000 + 100 * int k, limit = ?p\<rparr>] =
                  probe_requests ?p (Suc k)"
      by (simp add: probe_requests_def probe_requests_from_snoc)
    have len: "length (probe_requests ?p (Suc k)) = Suc k"
      by (simp add: probe_requests_def probe_requests_from_def)
    have first: "take (Suc k) (snd (handleLastPage fuel net st)) = probe_requests ?p (Suc k)"
    proof -
      obtain more where "snd (probe (Suc m) net ?p (1000 + 100 * int k) (probe_requests ?p k)) =
          (probe_requests ?p k @ [\<lparr>offset = 1000 + 100 * int k, limit = ?p\<rparr>]) @ more"
        using probe_Suc_prefix [of "1000 + 100 * int k" m net ?p "probe_requests ?p k"] by auto
      then have "snd (probe fuel net ?p 1000 []) = probe_requests ?p (Suc k) @ more"
        using run snoc by simp
      moreover obtain tail where
        "snd (handleLastPage fuel net st) = snd (probe fuel net ?p 1000 []) @ tail"
        using handleLastPage_sent [OF idle] by blast
      ultimately show ?thesis using len by simp
    qed
    have last: "handleLastPage fuel net st =
          (if documents_or_empty data = [] then
             (let lastPageOffset = max 0 ((currentChunk st + 1) * 100 - ?p);
                  sent = probe_requests ?p (Suc k) @ [\<lparr>offset = lastPageOffset, limit = ?p\<rparr>]
              in (case net sent of
                    Json fallback \<Rightarrow>
                      Some (adopt_last_page st (documents_or_empty fallback) lastPageOffset)
                  | _ \<Rightarrow> Some (last_page_failed st), sent))
           else (Some (adopt_last_page st (documents_or_empty data) (1000 + 100 * int k)),
                 probe_requests ?p (Suc k)))"
      if d: "net (probe_requests ?p (Suc k)) = Json data"
        and short: "int (length (documents_or_empty data)) < ?p" for data
    proof (cases "documents_or_empty data = []")
      case True
      then have "probe fuel net ?p 1000 [] = (Exit [] (1000 + 100 * int k), probe_requests ?p (Suc k))"
        using run snoc d by (simp add: Let_def)
      then show ?thesis using idle True
        by (simp add: handleLastPage_def Let_def split: fetch_result.splits)
    next
      case False
      then have "probe fuel net ?p 1000 [] =
          (Exit (documents_or_empty data) (1000 + 100 * int k), probe_requests ?p (Suc k))"
        using run snoc d short by (simp add: Let_def)
      then show ?thesis using idle False
        by (simp add: handleLastPage_def)
    qed
    from first last show ?thesis by blast
  qed
qed

text \<open>
  C1 (amended) at a concrete run: page size 5, one full page at offset 1000, then two records at
  offset 1100, which are adopted; and a backend with nothing at offset 1000, where the
  fallback request asks for offset 95.
\<close>

theorem handleLastPage_probe_witness:
  "handleLastPage 2 net_full_then_short initial_windowing =
     (Some (initial_windowing\<lparr>localDocuments := replicate 2 example_document, currentPage := 1,
              currentChunk := 11, loadingMore := False\<rparr>),
      [\<lparr>offset = 1000, limit = 5\<rparr>, \<lparr>offset = 1100, limit = 5\<rparr>]) \<and>
   snd (handleLastPage 1 net_empty_then_three initial_windowing) =
      [\<lparr>offset = 1000, limit = 5\<rparr>, \<lparr>offset = 95, limit = 5\<rparr>]"
proof -
  let ?st = initial_windowing
  have idle: "\<not> loadingMore ?st" and size: "0 < pageSize ?st"
    by (simp_all add: initial_windowing_def)
  have p5: "pageSize ?st = 5" and c0: "currentChunk ?st = 0"
    by (simp_all add: initial_windowing_def)
  have fuel2: "Suc 0 < (2::nat)" and fuel1: "0 < (1::nat)"
    by simp_all
  have reqs1: "probe_requests 5 (Suc 0) = [\<lparr>offset = 1000, limit = 5\<rparr>]"
    and reqs2: "probe_requests 5 (Suc (Suc 0)) =
                  [\<lparr>offset = 1000, limit = 5\<rparr>, \<lparr>offset = 1100, limit = 5\<rparr>]"
    by (simp_all add: probe_requests_def probe_requests_from_def)
  have docs: "documents_or_empty (page_of n) = replicate n example_document" for n
    by (simp add: documents_or_empty_def page_of_def)
  have full: "\<forall>i<Suc 0. is_full_page (pageSize ?st) (net_full_then_short (probe_requests (pageSize ?st) (Suc i)))"
    by (simp add: p5 reqs1 net_full_then_short_def is_full_page_def docs)
  have short: "net_full_then_short (probe_requests (pageSize ?st) (Suc (Suc 0))) = Json (page_of 2) \<and>
               int (length (documents_or_empty (page_of 2))) < pageSize ?st"
    by (simp add: p5 reqs2 net_full_then_short_def docs)
  have "handleLastPage 2 net_full_then_short ?st =
          (Some (adopt_last_page ?st (documents_or_empty (page_of 2)) (1000 + 100 * int (Suc 0))),
           probe_requests (pageSize ?st) (Suc (Suc 0)))"
    using handleLastPage_probe [OF size full fuel2, THEN conjunct2, THEN mp, OF idle,
        THEN conjunct2, THEN spec, of "page_of 2"]
      short by (simp add: docs)
  then have a: "handleLastPage 2 net_full_then_short ?st =
     (Some (?st\<lparr>localDocuments := replicate 2 example_document, currentPage := 1,
              currentChunk := 11, loadingMore := False\<rparr>),
      [\<lparr>offset = 1000, limit = 5\<rparr>, \<lparr>offset = 1100, limit = 5\<rparr>])"
    by (simp add: p5 reqs2 docs adopt_last_page_def)
  have none: "\<forall>i<0. is_full_page (pageSize ?st) (net_empty_then_three (probe_requests (pageSize ?st) (Suc i)))"
    by simp
  have zero: "net_empty_then_three (probe_requests (pageSize ?st) (Suc 0)) = Json (page_of 0) \<and>
              int (length (documents_or_empty (page_of 0))) < pageSize ?st"
    by (simp add: p5 reqs1 net_empty_then_three_def docs)
  have "snd (handleLastPage 1 net_empty_then_three ?st) =
          probe_requests (pageSize ?st) (Suc 0) @
            [\<lparr>offset = max 0 ((currentChunk ?st + 1) * 100 - pageSize ?st), limit = pageSize ?st\<rparr>]"
    using handleLastPage_probe [OF size none fuel1, THEN conjunct2, THEN mp, OF idle,
        THEN conjunct2, THEN spec, of "page_of 0"]
      zero by (simp add: docs Let_def)
  then have b: "snd (handleLastPage 1 net_empty_then_three ?st) =
      [\<lparr>offset = 1000, limit = 5\<rparr>, \<lparr>offset = 95, limit = 5\<rparr>]"
    by (simp add: p5 c0 reqs1)
  from a b show ?thesis by simp
qed

text \<open>
  What the handler adopts is what it leaves in the state. The effect on
  \<^verbatim>\<open>currentChunk\<close> is a separate mechanism: when the adopted chunk index differs from the
  one of the render before, the next render runs \<^verbatim>\<open>fetchDocuments()\<close>, which asks for
  offset 0 with limit 100.
\<close>

lemma useEffect_after_adopt:
  "off div 100 \<noteq> currentChunk st \<Longrightarrow>
   snd (useEffect_windowing net st (adopt_last_page st docs off)) = [\<lparr>offset = 0, limit = 100\<rparr>]"
  by (simp add: useEffect_windowing_def adopt_last_page_def fetchDocuments_def Let_def
      split: fetch_result.splits)

text \<open>
  Claim C9. With the page size one of 5, 10, 25 and 50, no request that
  \<open>handleLastPage\<close> sends, in the loop or as the fallback, and however long the loop
  runs, has a limit less than or equal to 0.
\<close>

theorem handleLastPage_limit_positive:
  assumes "pageSize st \<in> {5, 10, 25, 50}"
  shows "\<forall>r\<in>set (snd (handleLastPage fuel net st)). \<not> limit r \<le> 0"
  using assms handleLastPage_limits [of fuel net st] by auto

text \<open>
  C9 at a concrete run that sends two requests.
\<close>

theorem handleLastPage_limit_positive_witness:
  "snd (handleLastPage 2 net_full_then_short initial_windowing) \<noteq> [] \<and>
   list_all (\<lambda>r. \<not> limit r \<le> 0) (snd (handleLastPage 2 net_full_then_short initial_windowing))"
proof -
  have sel: "pageSize initial_windowing \<in> {5, 10, 25, 50}"
    by (simp add: initial_windowing_def)
  have "snd (handleLastPage 2 net_full_then_short initial_windowing) \<noteq> []"
    by (simp add: handleLastPage_def initial_windowing_def net_full_then_short_def page_of_def
        documents_or_empty_def numeral_2_eq_2 Let_def)
  with handleLastPage_limit_positive [OF sel, of 2 net_full_then_short] show ?thesis
    by (simp add: list_all_iff)
qed

text \<open>
  Claim C2. A chunk fetch sends one request, with limit 100 whatever the page size is.
  When the answer parses, the cache is exactly the answer's records, whatever it held
  before, and \<open>hasMoreDocuments\<close> is true exactly when there are 100 of them; when the
  fetch fails, the cache and the flag are left as they were. The two places that fetch a
  chunk besides a direct call (going to the last page of a chunk that has a successor,
  and the effect on \<^verbatim>\<open>currentChunk\<close>) send only requests with limit 100.
\<close>

theorem fetchDocuments_chunk:
  "snd (fetchDocuments net st chunkOffset) = [\<lparr>offset = chunkOffset, limit = 100\<rparr>] \<and>
   (case net [\<lparr>offset = chunkOffset, limit = 100\<rparr>] of
      Json data \<Rightarrow>
        localDocuments (fst (fetchDocuments net st chunkOffset)) = documents_or_empty data \<and>
        hasMoreDocuments (fst (fetchDocuments net st chunkOffset)) =
          (length (documents_or_empty data) = 100)
    | _ \<Rightarrow>
        localDocuments (fst (fetchDocuments net st chunkOffset)) = localDocuments st \<and>
        hasMoreDocuments (fst (fetchDocuments net st chunkOffset)) = hasMoreDocuments st) \<and>
   (\<forall>r\<in>set (snd (handlePageChange net st page)). limit r = 100) \<and>
   (\<forall>r\<in>set (snd (useEffect_windowing net prev st)). limit r = 100)"
proof -
  have sent: "snd (fetchDocuments net s off) = [\<lparr>offset = off, limit = 100\<rparr>]" for s off
    by (simp add: fetchDocuments_def Let_def split: fetch_result.splits)
  have "\<forall>r\<in>set (snd (handlePageChange net st page)). limit r = 100"
    by (simp add: handlePageChange_def Let_def sent)
  moreover have "\<forall>r\<in>set (snd (useEffect_windowing net prev st)). limit r = 100"
    by (simp add: useEffect_windowing_def sent)
  moreover have "case net [\<lparr>offset = chunkOffset, limit = 100\<rparr>] of
      Json data \<Rightarrow>
        localDocuments (fst (fetchDocuments net st chunkOffset)) = documents_or_empty data \<and>
        hasMoreDocuments (fst (fetchDocuments net st chunkOffset)) =
          (length (documents_or_empty data) = 100)
    | _ \<Rightarrow>
        localDocuments (fst (fetchDocuments net st chunkOffset)) = localDocuments st \<and>
        hasMoreDocuments (fst (fetchDocuments net st chunkOffset)) = hasMoreDocuments st"
    by (simp add: fetchDocuments_def Let_def split: fetch_result.splits)
  ultimately show ?thesis
    using sent [of st chunkOffset] by blast
qed

text \<open>
  C2 at concrete fetches: the chunk at offset 100, answered with five records; and the
  step from page 2 of 2 of a full chunk, shown fifty per page, which fetches offset 100
  with limit 100.
\<close>

theorem fetchDocuments_chunk_witness:
  "snd (fetchDocuments net_full_then_short windowing_with_12 100) = [\<lparr>offset = 100, limit = 100\<rparr>] \<and>
   localDocuments (fst (fetchDocuments net_full_then_short windowing_with_12 100)) =
     replicate 5 example_document \<and>
   hasMoreDocuments (fst (fetchDocuments net_full_then_short windowing_with_12 100)) = False \<and>
   snd (handlePageChange net_full_then_short windowing_full_chunk 2) = [\<lparr>offset = 100, limit = 100\<rparr>] \<and>
   list_all (\<lambda>r. limit r = 100) (snd (handlePageChange net_full_then_short windowing_full_chunk 2))"
proof -
  note T = fetchDocuments_chunk [of net_full_then_short windowing_with_12 100]
  have a: "snd (fetchDocuments net_full_then_short windowing_with_12 100) =
             [\<lparr>offset = 100, limit = 100\<rparr>]"
    using T by blast
  have "case net_full_then_short [\<lparr>offset = 100, limit = 100\<rparr>] of
      Json data \<Rightarrow>
        localDocuments (fst (fetchDocuments net_full_then_short windowing_with_12 100)) =
          documents_or_empty data \<and>
        hasMoreDocuments (fst (fetchDocuments net_full_then_short windowing_with_12 100)) =
          (length (documents_or_empty data) = 100)
    | _ \<Rightarrow>
        localDocuments (fst (fetchDocuments net_full_then_short windowing_with_12 100)) =
          localDocuments windowing_with_12 \<and>
        hasMoreDocuments (fst (fetchDocuments net_full_then_short windowing_with_12 100)) =
          hasMoreDocuments windowing_with_12"
    using T by blast
  then have b: "localDocuments (fst (fetchDocuments net_full_then_short windowing_with_12 100)) =
       replicate 5 example_document \<and>
     hasMoreDocuments (fst (fetchDocuments net_full_then_short windowing_with_12 100)) = False"
    by (simp add: net_full_then_short_def documents_or_empty_def page_of_def)
  have c: "snd (handlePageChange net_full_then_short windowing_full_chunk 2) =
             [\<lparr>offset = 100, limit = 100\<rparr>]"
    by (simp add: handlePageChange_def totalPages_def js_le_def js_eq_def windowing_full_chunk_def
        fetchDocuments_def net_full_then_short_def Let_def)
  have d: "list_all (\<lambda>r. limit r = 100)
             (snd (handlePageChange net_full_then_short windowing_full_chunk 2))"
    using fetchDocuments_chunk [of net_full_then_short windowing_full_chunk _ 2]
    by (simp add: list_all_iff)
  from a b c d show ?thesis by blast
qed

text \<open>
  Claim C3 as stated fails for the server-paginated table: there, going from ten to
  twenty-five records per page on page 2 changes both dependencies of the effect, which
  fetches offset 0 with limit 25.
\<close>

theorem page_size_change_refetches_paged_table:
  "snd (useEffect_paged net_full_then_short paged_on_page_2
          (handlePageSizeChange paged_on_page_2 25)) = [\<lparr>offset = 0, limit = 25\<rparr>]"
  by (simp add: useEffect_paged_def handlePageSizeChange_def fetchDocuments_paged_def
      paged_on_page_2_def net_full_then_short_def Let_def)

text \<open>
  Claim C3, amended. In both tables a change of page size sets the page size and resets
  the current page to 1. In the chunk-caching table \<open>w\<close> the change leaves the cache as
  it is, the effect does not run (no request), and the rows shown are the first \<open>n\<close>
  cached records. In the server-paginated table \<open>t\<close> the effect runs whenever the page
  size or the current page thereby changes, and fetches offset 0 with the new page size
  as limit.
\<close>

theorem handlePageSizeChange_resets_page:
  fixes w :: windowing_state and t :: table_state
  shows "currentPage (handlePageSizeChange w n) = 1 \<and>
     pageSize (handlePageSizeChange w n) = n \<and>
     localDocuments (handlePageSizeChange w n) = localDocuments w \<and>
     useEffect_windowing net w (handlePageSizeChange w n) = (handlePageSizeChange w n, []) \<and>
     currentPageDocuments (handlePageSizeChange w n) = slice (localDocuments w) 0 n \<and>
     currentPage (handlePageSizeChange t n) = 1 \<and>
     pageSize (handlePageSizeChange t n) = n \<and>
     snd (useEffect_paged net t (handlePageSizeChange t n)) =
       (if n \<noteq> pageSize t \<or> currentPage t \<noteq> 1 then [\<lparr>offset = 0, limit = n\<rparr>] else [])"
  by (auto simp: handlePageSizeChange_def useEffect_windowing_def useEffect_paged_def
      currentPageDocuments_def fetchDocuments_paged_def Let_def split: fetch_result.splits)

text \<open>
  C3 (amended) at concrete tables.
\<close>

theorem handlePageSizeChange_resets_page_witness:
  "currentPage (handlePageSizeChange windowing_with_12 10) = 1 \<and>
   snd (useEffect_windowing net_full_then_short windowing_with_12
          (handlePageSizeChange windowing_with_12 10)) = [] \<and>
   currentPageDocuments (handlePageSizeChange windowing_with_12 10) =
     replicate 10 example_document \<and>
   snd (useEffect_paged net_full_then_short paged_on_page_2
          (handlePageSizeChange paged_on_page_2 25)) = [\<lparr>offset = 0, limit = 25\<rparr>]"
proof -
  have "slice (localDocuments windowing_with_12) 0 10 = replicate 10 example_document"
    by (simp add: slice_def windowing_with_12_def Let_def)
  moreover have "(25::int) \<noteq> pageSize paged_on_page_2 \<or> currentPage paged_on_page_2 \<noteq> 1"
    by (simp add: paged_on_page_2_def)
  ultimately show ?thesis
    using handlePageSizeChange_resets_page [of windowing_with_12 10 net_full_then_short]
      handlePageSizeChange_resets_page [of _ 25 net_full_then_short paged_on_page_2]
    by simp
qed

section \<open>Properties of the route handlers\<close>

text \<open>
  Claim C4 as stated fails: with the backend address configured, a POST whose body
  cannot be read as form data is answered from the \<^verbatim>\<open>catch\<close> block, and no request
  has been sent.
\<close>

theorem POST_proxy_unreadable_body_sends_nothing:
  "POST_proxy example_URL backend_422 (Some ''https://api.example.com'')
       (Throws ''Content-Type was not one of multipart/form-data or application/x-www-form-urlencoded'') =
     (\<lparr>status = 500, body = JObject [(''error'', JString ''Error processing request'')]\<rparr>, [])"
  by (simp add: POST_proxy_def NextResponse_json_def error_object_def)

text \<open>
  Claim C4, amended. With the backend address configured the relay sends at most one
  request. When the body reads as form data and \<^verbatim>\<open>/api/v1/upload\<close> resolves against the
  address, it sends exactly one request: a POST of that form data to the resolved URL;
  and when the backend's answer parses as JSON, the relay returns that JSON unchanged
  with status 200, whatever status code the backend answered with. When the body does
  not read as form data, it sends nothing and answers 500.
\<close>

theorem POST_proxy_relays_once:
  assumes "\<not> not_configured BACKEND_URL"
  shows "length (snd (POST_proxy new_URL fetch BACKEND_URL request_formData)) \<le> 1 \<and>
    (\<forall>formData uploadUrl.
       request_formData = Returns formData \<and>
       new_URL ''/api/v1/upload'' (the BACKEND_URL) = Returns uploadUrl \<longrightarrow>
         snd (POST_proxy new_URL fetch BACKEND_URL request_formData) =
           [upload_request uploadUrl formData] \<and>
         (\<forall>code data.
            fetch (upload_request uploadUrl formData) =
              Returns \<lparr>backend_status = code, response_json = Returns data\<rparr> \<longrightarrow>
            fst (POST_proxy new_URL fetch BACKEND_URL request_formData) =
              \<lparr>status = 200, body = data\<rparr>)) \<and>
    (\<forall>e. request_formData = Throws e \<longrightarrow>
       POST_proxy new_URL fetch BACKEND_URL request_formData =
         (\<lparr>status = 500, body = error_object ''Error processing request''\<rparr>, []))"
  using assms
  by (auto simp: POST_proxy_def NextResponse_json_def upload_request_def Let_def
      split: attempt.splits)

text \<open>
  C4 (amended) at the scenario of the specification: the address
  \<^verbatim>\<open>https://api.example.com\<close>, a PDF in the field \<^verbatim>\<open>file\<close>, and a backend that answers
  with status 422 and a JSON body. One request goes to
  \<^verbatim>\<open>https://api.example.com/api/v1/upload\<close>, and the body comes back with status 200.
\<close>

theorem POST_proxy_relays_once_witness:
  "POST_proxy example_URL backend_422 (Some ''https://api.example.com'')
       (Returns [(''file'', FormFile example_pdf)]) =
     (\<lparr>status = 200,
       body = JObject [(''status'', JString ''error''), (''message'', JString ''unreadable pdf'')]\<rparr>,
      [\<lparr>url = ''https://api.example.com/api/v1/upload'', http_method = ''POST'', headers = [],
        form_body = Some [(''file'', FormFile example_pdf)]\<rparr>])"
proof -
  let ?B = "Some ''https://api.example.com''"
  let ?fd = "[(''file'', FormFile example_pdf)]"
  let ?u = "''https://api.example.com/api/v1/upload''"
  have cfg: "\<not> not_configured ?B"
    by (simp add: not_configured_def)
  have res: "Returns ?fd = Returns ?fd \<and> example_URL ''/api/v1/upload'' (the ?B) = Returns ?u"
    by (simp add: example_URL_def)
  have ans: "backend_422 (upload_request ?u ?fd) =
      Returns \<lparr>backend_status = 422,
               response_json = Returns (JObject [(''status'', JString ''error''),
                                                 (''message'', JString ''unreadable pdf'')])\<rparr>"
    by (simp add: backend_422_def)
  note T = POST_proxy_relays_once [OF cfg, of example_URL backend_422 "Returns ?fd",
      THEN conjunct2, THEN conjunct1, THEN spec, THEN spec, THEN mp, OF res]
  from T [THEN conjunct1] T [THEN conjunct2, THEN spec, THEN spec, THEN mp, OF ans]
  show ?thesis
    by (simp add: upload_request_def prod_eq_iff)
qed

text \<open>
  Claim C5 as stated fails for \<^verbatim>\<open>POST /api/proxy\<close>: the body is read before the address is
  looked at, so without an address a POST whose body cannot be read as form data gets
  the generic envelope, not the configuration error.
\<close>

theorem POST_proxy_unreadable_body_hides_configuration_error:
  "fst (POST_proxy example_URL backend_422 None (Throws ''Failed to parse body as FormData.'')) =
     \<lparr>status = 500, body = JObject [(''error'', JString ''Error processing request'')]\<rparr> \<and>
   fst (POST_proxy example_URL backend_422 None (Throws ''Failed to parse body as FormData.'')) \<noteq>
     \<lparr>status = 500, body = JObject [(''error'', JString ''Backend URL is not configured'')]\<rparr>"
  by (simp add: POST_proxy_def NextResponse_json_def error_object_def)

text \<open>
  Claim C5, amended. Without a backend address neither relay sends a request, and both
  answer 500: \<^verbatim>\<open>GET /api/documents\<close> always with the configuration error,
  \<^verbatim>\<open>POST /api/proxy\<close> with the configuration error when its body reads as form data and
  with its generic envelope otherwise. With an address, when the forwarded request
  fails or its answer is not JSON, each relay answers 500 with its own fixed envelope,
  the same whatever the failure was.
\<close>

theorem relays_answer_500:
  "(not_configured BACKEND_URL \<longrightarrow>
      GET_documents new_URL fetch BACKEND_URL searchParams =
        (\<lparr>status = 500, body = error_object ''Backend URL is not configured''\<rparr>, []) \<and>
      POST_proxy new_URL fetch BACKEND_URL (Returns formData) =
        (\<lparr>status = 500, body = error_object ''Backend URL is not configured''\<rparr>, []) \<and>
      POST_proxy new_URL fetch BACKEND_URL (Throws e) =
        (\<lparr>status = 500, body = error_object ''Error processing request''\<rparr>, [])) \<and>
   (\<not> not_configured BACKEND_URL \<and>
    new_URL ''/api/v1/upload'' (the BACKEND_URL) = Returns uploadUrl \<and>
    forward_failed (fetch (upload_request uploadUrl formData)) \<longrightarrow>
      fst (POST_proxy new_URL fetch BACKEND_URL (Returns formData)) =
        \<lparr>status = 500, body = error_object ''Error processing request''\<rparr>) \<and>
   (\<not> not_configured BACKEND_URL \<and>
    new_URL ''/api/v1/documents'' (the BACKEND_URL) = Returns documentsUrl \<and>
    forward_failed (fetch (documents_request documentsUrl
        (searchParams_get_or searchParams ''offset'' ''0'')
        (searchParams_get_or searchParams ''limit'' ''100''))) \<longrightarrow>
      fst (GET_documents new_URL fetch BACKEND_URL searchParams) =
        \<lparr>status = 500, body = error_object ''Error fetching documents''\<rparr>)"
  by (auto simp: POST_proxy_def GET_documents_def NextResponse_json_def upload_request_def
      documents_request_def forward_failed_def Let_def split: attempt.splits)

text \<open>
  C5 (amended) at concrete requests: no address; a backend whose connection is refused;
  a backend that answers with HTML. The envelopes do not carry the failure's message.
\<close>

theorem relays_answer_500_witness:
  "GET_documents example_URL backend_422 None [(''offset'', ''0''), (''limit'', ''5'')] =
     (\<lparr>status = 500, body = JObject [(''error'', JString ''Backend URL is not configured'')]\<rparr>, []) \<and>
   POST_proxy example_URL backend_422 (Some []) (Returns [(''file'', FormFile example_pdf)]) =
     (\<lparr>status = 500, body = JObject [(''error'', JString ''Backend URL is not configured'')]\<rparr>, []) \<and>
   fst (POST_proxy example_URL backend_down (Some ''https://api.example.com'')
          (Returns [(''file'', FormFile example_pdf)])) =
     \<lparr>status = 500, body = JObject [(''error'', JString ''Error processing request'')]\<rparr> \<and>
   fst (GET_documents example_URL backend_html (Some ''https://api.example.com'')
          [(''offset'', ''0''), (''limit'', ''5'')]) =
     \<lparr>status = 500, body = JObject [(''error'', JString ''Error fetching documents'')]\<rparr>"
proof -
  let ?B = "Some ''https://api.example.com''"
  let ?fd = "[(''file'', FormFile example_pdf)]"
  let ?sp = "[(''offset'', ''0''), (''limit'', ''5'')]"
  have none: "not_configured None" and empty: "not_configured (Some [])"
    by (simp_all add: not_configured_def)
  have down: "\<not> not_configured ?B \<and>
      example_URL ''/api/v1/upload'' (the ?B) = Returns ''https://api.example.com/api/v1/upload'' \<and>
      forward_failed (backend_down (upload_request ''https://api.example.com/api/v1/upload'' ?fd))"
    by (simp add: not_configured_def example_URL_def forward_failed_def backend_down_def)
  have html: "\<not> not_configured ?B \<and>
      example_URL ''/api/v1/documents'' (the ?B) = Returns ''https://api.example.com/api/v1/documents'' \<and>
      forward_failed (backend_html (documents_request ''https://api.example.com/api/v1/documents''
        (searchParams_get_or ?sp ''offset'' ''0'') (searchParams_get_or ?sp ''limit'' ''100'')))"
    by (simp add: not_configured_def example_URL_def forward_failed_def backend_html_def)
  from relays_answer_500 [where BACKEND_URL = None and new_URL = example_URL
        and fetch = backend_422 and searchParams = ?sp, THEN conjunct1, THEN mp, OF none]
    relays_answer_500 [where BACKEND_URL = "Some []" and new_URL = example_URL
        and fetch = backend_422 and formData = ?fd, THEN conjunct1, THEN mp, OF empty]
    relays_answer_500 [where BACKEND_URL = ?B and new_URL = example_URL
        and fetch = backend_down, THEN conjunct2, THEN conjunct1, THEN mp, OF down]
    relays_answer_500 [where BACKEND_URL = ?B and new_URL = example_URL
        and fetch = backend_html, THEN conjunct2, THEN conjunct2, THEN mp, OF html]
  show ?thesis
    by (simp add: error_object_def)
qed

text \<open>
  Claim C10. When the form data has no entry \<^verbatim>\<open>file\<close> the endpoint answers 400 with the
  error \<^verbatim>\<open>No file uploaded\<close>; when the entry is a file whose type is empty or is not
  \<^verbatim>\<open>application/pdf\<close> it answers 400 with \<^verbatim>\<open>Only PDF files are allowed\<close>; when the
  entry is a file of type \<^verbatim>\<open>application/pdf\<close> it generates one identifier and answers
  200 with it and the status \<^verbatim>\<open>success\<close>. (An entry \<^verbatim>\<open>file\<close> that is text, not a
  file, is answered 400 as well: as no file when it is empty, as not a PDF otherwise.)
  Whatever the request, a body with a
  \<^verbatim>\<open>document_id\<close> is returned only for a PDF-typed file, and on every other branch the
  generator is not called.
\<close>

theorem POST_pdf_validates:
  "(formData_get formData ''file'' = None \<longrightarrow>
      POST_pdf uuidv4 calls (Returns formData) =
        (\<lparr>status = 400, body = error_object ''No file uploaded''\<rparr>, calls)) \<and>
   (formData_get formData ''file'' = Some (FormFile upload) \<and>
    (file_type upload = [] \<or> file_type upload \<noteq> ''application/pdf'') \<longrightarrow>
      POST_pdf uuidv4 calls (Returns formData) =
        (\<lparr>status = 400, body = error_object ''Only PDF files are allowed''\<rparr>, calls)) \<and>
   (formData_get formData ''file'' = Some (FormString s) \<longrightarrow>
      POST_pdf uuidv4 calls (Returns formData) =
        (\<lparr>status = 400,
          body = error_object (if s = [] then ''No file uploaded''
                               else ''Only PDF files are allowed'')\<rparr>, calls)) \<and>
   (formData_get formData ''file'' = Some (FormFile upload) \<and>
    file_type upload = ''application/pdf'' \<longrightarrow>
      POST_pdf uuidv4 calls (Returns formData) =
        (\<lparr>status = 200,
          body = JObject [(''document_id'', JString (uuidv4 calls)),
                          (''status'', JString ''success'')]\<rparr>, Suc calls)) \<and>
   (has_document_id (body (fst (POST_pdf uuidv4 calls request_formData))) \<longrightarrow>
      (\<exists>fd f. request_formData = Returns fd \<and> formData_get fd ''file'' = Some (FormFile f) \<and>
              file_type f = ''application/pdf'')) \<and>
   (\<not> has_document_id (body (fst (POST_pdf uuidv4 calls request_formData))) \<longrightarrow>
      snd (POST_pdf uuidv4 calls request_formData) = calls)"
  by (auto simp: POST_pdf_def NextResponse_json_def error_object_def has_document_id_def
      split: attempt.splits option.splits form_entry.splits)

text \<open>C10 at three concrete requests: no file, a PNG, a PDF.\<close>

theorem POST_pdf_validates_witness:
  "POST_pdf example_uuidv4 0 (Returns [(''note'', FormString ''hello'')]) =
     (\<lparr>status = 400, body = JObject [(''error'', JString ''No file uploaded'')]\<rparr>, 0) \<and>
   POST_pdf example_uuidv4 0 (Returns [(''file'', FormFile example_png)]) =
     (\<lparr>status = 400, body = JObject [(''error'', JString ''Only PDF files are allowed'')]\<rparr>, 0) \<and>
   POST_pdf example_uuidv4 0 (Returns [(''file'', FormFile example_pdf)]) =
     (\<lparr>status = 200,
       body = JObject [(''document_id'', JString ''9b2f6c1e-0000-4000-8000-000000000000''),
                       (''status'', JString ''success'')]\<rparr>, 1)"
proof -
  have a: "formData_get [(''note'', FormString ''hello'')] ''file'' = None"
    by (simp add: formData_get_def)
  have b: "formData_get [(''file'', FormFile example_png)] ''file'' = Some (FormFile example_png) \<and>
           (file_type example_png = [] \<or> file_type example_png \<noteq> ''application/pdf'')"
    by (simp add: formData_get_def example_png_def)
  have c: "formData_get [(''file'', FormFile example_pdf)] ''file'' = Some (FormFile example_pdf) \<and>
           file_type example_pdf = ''application/pdf''"
    by (simp add: formData_get_def example_pdf_def)
  from POST_pdf_validates [where ?uuidv4.0 = example_uuidv4 and calls = 0,
        THEN conjunct1, THEN mp, OF a]
    POST_pdf_validates [where ?uuidv4.0 = example_uuidv4 and calls = 0,
        THEN conjunct2, THEN conjunct1, THEN mp, OF b]
    POST_pdf_validates [where ?uuidv4.0 = example_uuidv4 and calls = 0,
        THEN conjunct2, THEN conjunct2, THEN conjunct2, THEN conjunct1, THEN mp, OF c]
  show ?thesis
    by (simp add: error_object_def example_uuidv4_def)
qed

section \<open>Properties of the upload widget\<close>

lemma handleFileChange_holds: "holds_pdf_or_nothing (handleFileChange st selectedFile)"
  by (simp add: holds_pdf_or_nothing_def handleFileChange_def split: option.splits)

lemma handleUpload_file: "file (fst (handleUpload fetch randomUUID now st)) = file st"
  by (simp add: handleUpload_def upload_failed_def Let_def split: option.splits attempt.splits)

lemma handleUpload_sent:
  "r \<in> set (fst (snd (handleUpload fetch randomUUID now st))) \<Longrightarrow>
   \<exists>g. file st = Some g \<and> form_body r = Some [(''file'', FormFile g)] \<and> url r = ''/api/proxy''"
  by (auto simp: handleUpload_def Let_def split: option.splits attempt.splits if_splits)

lemma upload_session_pdf:
  "holds_pdf_or_nothing st \<Longrightarrow>
   list_all carries_pdf (snd (upload_session fetch randomUUID now st evs))"
proof (induction fetch randomUUID now st evs rule: upload_session.induct)
  case (1 fetch randomUUID now st)
  then show ?case by simp
next
  case (2 fetch randomUUID now st selectedFile evs)
  then show ?case by (simp add: handleFileChange_holds)
next
  case (3 fetch randomUUID now st evs)
  obtain st' sent entries where h: "handleUpload fetch randomUUID now st = (st', sent, entries)"
    by (cases "handleUpload fetch randomUUID now st") auto
  have "file st' = file st"
    using handleUpload_file [of fetch randomUUID now st] h by simp
  then have inv: "holds_pdf_or_nothing st'"
    using "3.prems" by (simp add: holds_pdf_or_nothing_def)
  have now_sent: "list_all carries_pdf sent"
  proof -
    have "carries_pdf r" if "r \<in> set sent" for r
      using handleUpload_sent [of r fetch randomUUID now st] that h "3.prems"
      by (auto simp: carries_pdf_def holds_pdf_or_nothing_def)
    then show ?thesis by (simp add: list_all_iff)
  qed
  have "list_all carries_pdf (snd (upload_session fetch randomUUID now st' evs))"
    using "3.IH" [OF h [symmetric] refl inv] .
  with now_sent h show ?case
    by (auto split: prod.splits)
qed

text \<open>
  Claim C6. Selecting a file whose type is not \<^verbatim>\<open>application/pdf\<close> leaves the widget
  with no file and with the error \<^verbatim>\<open>Please select a valid PDF file\<close>, and sends nothing,
  also when the upload button is pressed next. Whatever the state, a request sent by
  \<^verbatim>\<open>handleUpload\<close> carries the file the widget holds, and in every session that starts
  from the initial state every request sent carries a PDF-typed file.
\<close>

theorem upload_needs_pdf:
  "(file_type f \<noteq> ''application/pdf'' \<longrightarrow>
      handleFileChange st (Some f) = st\<lparr>file := None, response := Some validation_error\<rparr> \<and>
      upload_session fetch randomUUID now st [FileChange (Some f), Upload] =
        (st\<lparr>file := None, response := Some validation_error\<rparr>, [])) \<and>
   (\<forall>r\<in>set (fst (snd (handleUpload fetch randomUUID now st))).
      \<exists>g. file st = Some g \<and> form_body r = Some [(''file'', FormFile g)] \<and>
          url r = ''/api/proxy'') \<and>
   list_all carries_pdf (snd (upload_session fetch randomUUID now initial_upload evs))"
proof -
  have "holds_pdf_or_nothing initial_upload"
    by (simp add: holds_pdf_or_nothing_def initial_upload_def)
  then have "list_all carries_pdf (snd (upload_session fetch randomUUID now initial_upload evs))"
    by (rule upload_session_pdf)
  moreover have "file_type f \<noteq> ''application/pdf'' \<longrightarrow>
      handleFileChange st (Some f) = st\<lparr>file := None, response := Some validation_error\<rparr> \<and>
      upload_session fetch randomUUID now st [FileChange (Some f), Upload] =
        (st\<lparr>file := None, response := Some validation_error\<rparr>, [])"
    by (simp add: handleFileChange_def validation_error_def handleUpload_def)
  ultimately show ?thesis
    using handleUpload_sent [of _ fetch randomUUID now st] by blast
qed

text \<open>
  C6 at a concrete session: a PNG is selected and the button pressed (nothing is sent,
  the error is shown), then a PDF is selected and the button pressed (one request, with
  the PDF).
\<close>

theorem upload_needs_pdf_witness:
  "upload_session backend_422 ''id-1'' ''2025-01-01T00:00:00.000Z'' initial_upload
       [FileChange (Some example_png), Upload] =
     (\<lparr>file = None, uploading = False, response = Some validation_error\<rparr>, []) \<and>
   snd (upload_session backend_422 ''id-1'' ''2025-01-01T00:00:00.000Z'' initial_upload
          [FileChange (Some example_png), Upload, FileChange (Some example_pdf), Upload]) =
     [\<lparr>url = ''/api/proxy'', http_method = ''POST'', headers = [],
       form_body = Some [(''file'', FormFile example_pdf)]\<rparr>] \<and>
   list_all carries_pdf
     (snd (upload_session backend_422 ''id-1'' ''2025-01-01T00:00:00.000Z'' initial_upload
          [FileChange (Some example_png), Upload, FileChange (Some example_pdf), Upload]))"
proof -
  have png: "file_type example_png \<noteq> ''application/pdf''"
    by (simp add: example_png_def)
  note T = upload_needs_pdf [where f = example_png and st = initial_upload
      and fetch = backend_422 and randomUUID = "''id-1''" and now = "''2025-01-01T00:00:00.000Z''"]
  have a: "upload_session backend_422 ''id-1'' ''2025-01-01T00:00:00.000Z'' initial_upload
       [FileChange (Some example_png), Upload] =
     (\<lparr>file = None, uploading = False, response = Some validation_error\<rparr>, [])"
    using T [THEN conjunct1, THEN mp, OF png, THEN conjunct2]
    by (simp add: initial_upload_def)
  have b: "snd (upload_session backend_422 ''id-1'' ''2025-01-01T00:00:00.000Z'' initial_upload
          [FileChange (Some example_png), Upload, FileChange (Some example_pdf), Upload]) =
     [\<lparr>url = ''/api/proxy'', http_method = ''POST'', headers = [],
       form_body = Some [(''file'', FormFile example_pdf)]\<rparr>]"
    by (simp add: initial_upload_def handleFileChange_def handleUpload_def example_png_def
        example_pdf_def backend_422_def Let_def)
  have c: "list_all carries_pdf
     (snd (upload_session backend_422 ''id-1'' ''2025-01-01T00:00:00.000Z'' initial_upload
          [FileChange (Some example_png), Upload, FileChange (Some example_pdf), Upload]))"
    using T [THEN conjunct2, THEN conjunct2] .
  from a b c show ?thesis
    by blast
qed

section \<open>Properties of the findings summary\<close>

lemma update_absent:
  "k \<notin> fst ` set obj \<Longrightarrow> map (\<lambda>(k', v'). if k' = k then (k', v) else (k', v')) obj = obj"
  by (induction obj) auto

lemma update_keys:
  "map fst (map (\<lambda>(k', v'). if k' = k then (k', v) else (k', v')) obj) = map fst obj"
  by (induction obj) auto

lemma update_map_of:
  "map_of (map (\<lambda>(k', v'). if k' = k then (k', v) else (k', v')) obj) x =
     (if x = k \<and> map_of obj k \<noteq> None then Some v else map_of obj x)"
  by (induction obj) (auto split: if_splits)

lemma update_sum:
  "distinct (map fst obj) \<Longrightarrow> map_of obj k = Some (Num n) \<Longrightarrow>
   shown_count_sum (map (\<lambda>(k', v'). if k' = k then (k', Num (Suc n)) else (k', v')) obj) =
     Suc (shown_count_sum obj)"
proof (induction obj)
  case Nil
  then show ?case by simp
next
  case (Cons a obj)
  obtain k' v' where a: "a = (k', v')" by (cases a)
  show ?case
  proof (cases "k' = k")
    case True
    with Cons.prems a have "v' = Num n" and "k \<notin> fst ` set obj" by auto
    then show ?thesis using a True
      by (simp add: shown_count_sum_def update_absent)
  next
    case False
    with Cons a show ?thesis by (simp add: shown_count_sum_def)
  qed
qed

lemma update_all_numbers:
  "all_numbers obj \<Longrightarrow>
   all_numbers (map (\<lambda>(k', v'). if k' = k then (k', Num n) else (k', v')) obj)"
  by (induction obj) (auto simp: all_numbers_def split: if_splits)

lemma all_numbers_map_of:
  "all_numbers obj \<Longrightarrow> map_of obj k = Some v \<Longrightarrow> \<exists>n. v = Num n"
  by (induction obj) (auto simp: all_numbers_def split: if_splits js_value.splits)

lemma count_step_plain:
  assumes key: "type f \<notin> set Object_prototype_keys"
    and num: "all_numbers acc" and dist: "distinct (map fst acc)"
  shows "all_numbers (count_step acc f) \<and> distinct (map fst (count_step acc f)) \<and>
         shown_count_sum (count_step acc f) = Suc (shown_count_sum acc) \<and>
         map_of (count_step acc f) = (map_of acc)(type f \<mapsto> Num (Suc (count_of acc (type f))))"
proof (cases "map_of acc (type f)")
  case None
  then have step: "count_step acc f = acc @ [(type f, Num 1)]"
    using key by (simp add: count_step_def js_get_def js_set_def or_zero_plus_one_def
        Object_prototype_keys_def)
  have fresh: "type f \<notin> fst ` set acc"
    using None by (simp add: map_of_eq_None_iff)
  show ?thesis
    using num dist None fresh
    by (auto simp: step all_numbers_def shown_count_sum_def count_of_def fun_eq_iff
        map_add_def split: option.splits)
next
  case (Some v)
  then obtain n where v: "v = Num n"
    using all_numbers_map_of [OF num] by blast
  have step: "count_step acc f =
      map (\<lambda>(k', v'). if k' = type f then (k', Num (Suc n)) else (k', v')) acc"
    using key Some v by (simp add: count_step_def js_get_def js_set_def or_zero_plus_one_def
        Object_prototype_keys_def)
  have a: "all_numbers (count_step acc f)"
    unfolding step using num by (rule update_all_numbers)
  have b: "distinct (map fst (count_step acc f))"
    unfolding step using dist by (subst update_keys)
  have c: "shown_count_sum (count_step acc f) = Suc (shown_count_sum acc)"
    unfolding step using dist Some v by (simp add: update_sum)
  have d: "map_of (count_step acc f) = (map_of acc)(type f \<mapsto> Num (Suc (count_of acc (type f))))"
    unfolding step using Some v by (auto simp: fun_eq_iff update_map_of count_of_def)
  from a b c d show ?thesis by blast
qed

lemma count_by_type_snoc: "count_by_type (fs @ [f]) = count_step (count_by_type fs) f"
  by (simp add: count_by_type_def)

lemma count_by_type_plain:
  assumes "\<forall>f\<in>set fs. type f \<notin> set Object_prototype_keys"
  shows "all_numbers (count_by_type fs) \<and> distinct (map fst (count_by_type fs)) \<and>
         shown_count_sum (count_by_type fs) = length fs \<and>
         (\<forall>t. map_of (count_by_type fs) t =
               (if t \<in> type ` set fs then Some (Num (count_list (map type fs) t)) else None))"
  using assms
proof (induction fs rule: rev_induct)
  case Nil
  then show ?case by (simp add: count_by_type_def all_numbers_def shown_count_sum_def)
next
  case (snoc f fs)
  then have ih: "all_numbers (count_by_type fs)" "distinct (map fst (count_by_type fs))"
    "shown_count_sum (count_by_type fs) = length fs"
    "\<And>t. map_of (count_by_type fs) t =
               (if t \<in> type ` set fs then Some (Num (count_list (map type fs) t)) else None)"
    by auto
  from snoc.prems have key: "type f \<notin> set Object_prototype_keys" by simp
  note st = count_step_plain [OF key ih(1) ih(2)]
  have cnt: "count_of (count_by_type fs) (type f) = count_list (map type fs) (type f)"
    by (auto simp: count_of_def ih(4) count_list_0_iff)
  show ?case
    using st ih(3) cnt by (auto simp: count_by_type_snoc ih(4))
qed

lemma mset_Object_entries: "mset (Object_entries obj) = mset obj"
  by (simp add: Object_entries_def)

lemma Object_entries_keys: "distinct (map fst (Object_entries obj)) = distinct (map fst obj)"
proof -
  have "mset (map fst (Object_entries obj)) = mset (map fst obj)"
    by (simp add: mset_Object_entries)
  then show ?thesis by (rule mset_eq_imp_distinct_iff)
qed

lemma Object_entries_map_of:
  assumes "distinct (map fst obj)"
  shows "map_of (Object_entries obj) = map_of obj"
proof -
  have "set (Object_entries obj) = set obj"
    using mset_Object_entries [of obj] by (rule mset_eq_setD)
  moreover have "distinct (map fst (Object_entries obj))"
    using assms by (simp add: Object_entries_keys)
  ultimately show ?thesis
    using assms by (simp add: map_of_inject_set)
qed

lemma Object_entries_sum: "shown_count_sum (Object_entries obj) = shown_count_sum obj"
proof -
  let ?g = "\<lambda>(label :: string, v). case v of Num n \<Rightarrow> n | Str s \<Rightarrow> 0"
  have "mset (map ?g (Object_entries obj)) = mset (map ?g obj)"
    by (simp add: mset_Object_entries)
  then have "sum_mset (mset (map ?g (Object_entries obj))) = sum_mset (mset (map ?g obj))"
    by simp
  then show ?thesis
    by (simp only: shown_count_sum_def sum_mset_sum_list)
qed

lemma label_sum:
  "shown_count_sum (map (\<lambda>(t, count). (toLowerCase t, count)) es) = shown_count_sum es"
  by (induction es) (auto simp: shown_count_sum_def)

text \<open>
  For findings none of whose types is the name of a property of \<^verbatim>\<open>Object.prototype\<close>,
  every count shown is a number and the counts add up to the number of findings.
\<close>

lemma FindingsList_counts_add_up:
  assumes "\<forall>f\<in>set findings. type f \<notin> set Object_prototype_keys" and "findings \<noteq> []"
  shows "FindingsList toLowerCase findings \<noteq> None \<and>
         total_findings (the (FindingsList toLowerCase findings)) = length findings \<and>
         shown_count_sum (groups (the (FindingsList toLowerCase findings))) = length findings"
  using assms count_by_type_plain [OF assms(1)]
  by (simp add: FindingsList_def Let_def label_sum Object_entries_sum)

text \<open>
  Claim C7 fails on the code at a finding whose type is \<^verbatim>\<open>__proto__\<close>: reading
  \<^verbatim>\<open>acc["__proto__"]\<close> gives \<^verbatim>\<open>Object.prototype\<close>, and the assignment goes to the
  setter, which drops the string. No property is created, so the summary shows
  \<^verbatim>\<open>Total findings: 1\<close> above an empty list of groups, whose counts add up to 0.
\<close>

theorem FindingsList_drops_proto_finding:
  "FindingsList toLowerCase [finding_of_type ''__proto__''] =
     Some \<lparr>total_findings = 1, groups = [], types_line = []\<rparr> \<and>
   shown_count_sum (groups (the (FindingsList toLowerCase [finding_of_type ''__proto__'']))) = 0"
  by (simp add: FindingsList_def count_by_type_def count_step_def js_get_def js_set_def
      or_zero_plus_one_def Object_entries_def finding_of_type_def join_def shown_count_sum_def)

text \<open>
  Claim C8 as stated fails: the accumulator is keyed by the type as it is written, and
  only the label shown is lower-cased. \<^verbatim>\<open>EMAIL\<close> and \<^verbatim>\<open>email\<close> are two groups of one
  finding each, both labelled \<^verbatim>\<open>email\<close> (the strings are ASCII, where \<^verbatim>\<open>toLowerCase\<close>
  is \<open>ascii_toLowerCase\<close>).
\<close>

theorem FindingsList_splits_case_variants:
  "FindingsList ascii_toLowerCase [finding_of_type ''EMAIL'', finding_of_type ''email''] =
     Some \<lparr>total_findings = 2, groups = [(''email'', Num 1), (''email'', Num 1)],
           types_line = ''email (1), email (1)''\<rparr>"
  by (simp add: FindingsList_def count_by_type_def count_step_def js_get_def js_set_def
      or_zero_plus_one_def Object_entries_def array_index_def digit_value_def ascii_toLowerCase_def
      ascii_toLowerCase_char_def finding_of_type_def Object_prototype_functions_def Let_def
      join_def to_text_def decimal.simps)

text \<open>
  Claim C8, amended. For a non-empty list of findings (none of whose types is the name
  of a property of \<^verbatim>\<open>Object.prototype\<close>), the summary has one group for each distinct
  type string as written: the groups are the entries of the accumulator with their
  labels lower-cased, the accumulator's keys are distinct, there are as many groups as
  distinct type strings, and the count under a key is the number of findings with
  exactly that type. Two findings whose types differ, be it only in letter case, count
  under two groups at two positions of the summary, each with the number of findings of
  exactly its own type, and with the same label when the types lower-case to the same
  string.
\<close>

theorem FindingsList_groups_by_exact_type:
  assumes "\<forall>f\<in>set findings. type f \<notin> set Object_prototype_keys" and "findings \<noteq> []"
  shows "FindingsList toLowerCase findings \<noteq> None \<and>
    groups (the (FindingsList toLowerCase findings)) =
      map (\<lambda>(t, count). (toLowerCase t, count)) (Object_entries (count_by_type findings)) \<and>
    distinct (map fst (Object_entries (count_by_type findings))) \<and>
    length (groups (the (FindingsList toLowerCase findings))) = card (type ` set findings) \<and>
    (\<forall>t. map_of (Object_entries (count_by_type findings)) t =
          (if t \<in> type ` set findings then Some (Num (count_list (map type findings) t))
           else None)) \<and>
    (\<forall>f\<in>set findings. \<forall>g\<in>set findings. type f \<noteq> type g \<longrightarrow>
       (\<exists>i j. i < length (groups (the (FindingsList toLowerCase findings))) \<and>
              j < length (groups (the (FindingsList toLowerCase findings))) \<and> i \<noteq> j \<and>
              groups (the (FindingsList toLowerCase findings)) ! i =
                (toLowerCase (type f), Num (count_list (map type findings) (type f))) \<and>
              groups (the (FindingsList toLowerCase findings)) ! j =
                (toLowerCase (type g), Num (count_list (map type findings) (type g)))))"
proof -
  let ?es = "Object_entries (count_by_type findings)"
  let ?gs = "groups (the (FindingsList toLowerCase findings))"
  note plain = count_by_type_plain [OF assms(1)]
  have dist: "distinct (map fst ?es)"
    using plain by (simp add: Object_entries_keys)
  have look: "map_of ?es t =
      (if t \<in> type ` set findings then Some (Num (count_list (map type findings) t)) else None)"
    for t
    using plain by (simp add: Object_entries_map_of)
  have "set (map fst ?es) = type ` set findings"
  proof -
    have "set (map fst ?es) = dom (map_of ?es)"
      by (simp add: dom_map_of_conv_image_fst)
    also have "\<dots> = type ` set findings"
      by (auto simp: dom_def look)
    finally show ?thesis .
  qed
  then have "card (type ` set findings) = length (map fst ?es)"
    using dist distinct_card by fastforce
  then have len: "length ?es = card (type ` set findings)"
    by simp
  have gs: "?gs = map (\<lambda>(t, count). (toLowerCase t, count)) ?es"
    using assms(2) by (simp add: FindingsList_def Let_def)
  have at: "\<exists>i. i < length ?es \<and> ?es ! i = (type f, Num (count_list (map type findings) (type f)))"
    if "f \<in> set findings" for f
  proof -
    have "map_of ?es (type f) = Some (Num (count_list (map type findings) (type f)))"
      using that by (simp add: look)
    then have "(type f, Num (count_list (map type findings) (type f))) \<in> set ?es"
      by (rule map_of_SomeD)
    then show ?thesis
      by (auto simp: in_set_conv_nth)
  qed
  have pair: "\<exists>i j. i < length ?gs \<and> j < length ?gs \<and> i \<noteq> j \<and>
        ?gs ! i = (toLowerCase (type f), Num (count_list (map type findings) (type f))) \<and>
        ?gs ! j = (toLowerCase (type g), Num (count_list (map type findings) (type g)))"
    if f: "f \<in> set findings" and g: "g \<in> set findings" and ne: "type f \<noteq> type g" for f g
  proof -
    obtain i where i: "i < length ?es"
      "?es ! i = (type f, Num (count_list (map type findings) (type f)))"
      using at [OF f] by blast
    obtain j where j: "j < length ?es"
      "?es ! j = (type g, Num (count_list (map type findings) (type g)))"
      using at [OF g] by blast
    have "i \<noteq> j"
      using i(2) j(2) ne by auto
    moreover have "?gs ! i = (toLowerCase (type f), Num (count_list (map type findings) (type f)))"
      using i by (simp add: gs)
    moreover have "?gs ! j = (toLowerCase (type g), Num (count_list (map type findings) (type g)))"
      using j by (simp add: gs)
    moreover have "i < length ?gs" and "j < length ?gs"
      using i(1) j(1) by (simp_all add: gs)
    ultimately show ?thesis by blast
  qed
  have none: "FindingsList toLowerCase findings \<noteq> None"
    using assms(2) by (simp add: FindingsList_def Let_def)
  have size: "length ?gs = card (type ` set findings)"
    using len by (simp add: gs)
  from none gs dist size look pair show ?thesis
    by blast
qed

text \<open>C8 (amended) at the two findings \<^verbatim>\<open>EMAIL\<close> and \<^verbatim>\<open>email\<close>: two groups.\<close>

theorem FindingsList_groups_by_exact_type_witness:
  "length (groups (the (FindingsList ascii_toLowerCase [finding_of_type ''EMAIL'', finding_of_type ''email'']))) = 2 \<and>
   map_of (Object_entries (count_by_type [finding_of_type ''EMAIL'', finding_of_type ''email'']))
     ''EMAIL'' = Some (Num 1)"
proof -
  let ?fs = "[finding_of_type ''EMAIL'', finding_of_type ''email'']"
  have plain: "\<forall>f\<in>set ?fs. type f \<notin> set Object_prototype_keys"
    by (simp add: finding_of_type_def Object_prototype_keys_def Object_prototype_functions_def)
  have ne: "?fs \<noteq> []" by simp
  have two: "card (type ` set ?fs) = 2"
    and one: "count_list (map type ?fs) ''EMAIL'' = 1"
    and mem: "''EMAIL'' \<in> type ` set ?fs"
    by (simp_all add: finding_of_type_def)
  note T = FindingsList_groups_by_exact_type [OF plain ne, of ascii_toLowerCase]
  from T have "length (groups (the (FindingsList ascii_toLowerCase ?fs))) = card (type ` set ?fs)"
    by blast
  with two have a: "length (groups (the (FindingsList ascii_toLowerCase ?fs))) = 2"
    by (simp only:)
  from T have "map_of (Object_entries (count_by_type ?fs)) ''EMAIL'' =
      (if ''EMAIL'' \<in> type ` set ?fs then Some (Num (count_list (map type ?fs) ''EMAIL''))
       else None)"
    by blast
  with one mem have b: "map_of (Object_entries (count_by_type ?fs)) ''EMAIL'' = Some (Num 1)"
    by (simp only: if_True)
  from a b show ?thesis by blast
qed

end
